theory Spec2Isabelle
  imports Complex_Main
begin

text \<open>
  A model of the canvas widget of \<open>modules_forge/forge_canvas/canvas.js\<close>: the class
  \<open>GradioTextAreaBind\<close> that binds a textarea of the host page, and of the class
  \<open>ForgeCanvas\<close> the history (\<open>saveState\<close>, \<open>undo\<close>, \<open>redo\<close>), the fit and the zoom of
  the view, the brush and the eraser with the pointer listeners that drive them, and
  the two upload methods. A method is a function from the state of the widget to the
  state it leaves; the calls into the browser are functions given to the model.
\<close>

section \<open>JavaScript numbers\<close>

text \<open>
  The widget computes with JavaScript numbers. A finite double is modelled by the real
  it denotes (rounding and overflow are left out, and the two zeros are one, read as
  \<open>+0\<close>); the two infinities and NaN are values of their own, so that a division by
  zero is visible in the model instead of being HOL's \<open>x / 0 = 0\<close>.
\<close>

datatype jsnum = Fin real | PInf | NInf | NaN

fun jneg :: "jsnum \<Rightarrow> jsnum" where
  "jneg (Fin a) = Fin (- a)"
| "jneg PInf = NInf"
| "jneg NInf = PInf"
| "jneg NaN = NaN"

fun jadd :: "jsnum \<Rightarrow> jsnum \<Rightarrow> jsnum" where
  "jadd (Fin a) (Fin b) = Fin (a + b)"
| "jadd NaN _ = NaN"
| "jadd _ NaN = NaN"
| "jadd PInf NInf = NaN"
| "jadd NInf PInf = NaN"
| "jadd PInf _ = PInf"
| "jadd _ PInf = PInf"
| "jadd NInf _ = NInf"
| "jadd _ NInf = NInf"

definition jsub :: "jsnum \<Rightarrow> jsnum \<Rightarrow> jsnum" where
  "jsub a b = jadd a (jneg b)"

fun jmul :: "jsnum \<Rightarrow> jsnum \<Rightarrow> jsnum" where
  "jmul (Fin a) (Fin b) = Fin (a * b)"
| "jmul NaN _ = NaN"
| "jmul _ NaN = NaN"
| "jmul (Fin a) PInf = (if a = 0 then NaN else if 0 < a then PInf else NInf)"
| "jmul (Fin a) NInf = (if a = 0 then NaN else if 0 < a then NInf else PInf)"
| "jmul PInf (Fin b) = (if b = 0 then NaN else if 0 < b then PInf else NInf)"
| "jmul NInf (Fin b) = (if b = 0 then NaN else if 0 < b then NInf else PInf)"
| "jmul PInf PInf = PInf"
| "jmul PInf NInf = NInf"
| "jmul NInf PInf = NInf"
| "jmul NInf NInf = PInf"

fun jdiv :: "jsnum \<Rightarrow> jsnum \<Rightarrow> jsnum" where
  "jdiv (Fin a) (Fin b) =
     (if b \<noteq> 0 then Fin (a / b)
      else if a = 0 then NaN else if 0 < a then PInf else NInf)"
| "jdiv NaN _ = NaN"
| "jdiv _ NaN = NaN"
| "jdiv (Fin a) PInf = Fin 0"
| "jdiv (Fin a) NInf = Fin 0"
| "jdiv PInf (Fin b) = (if 0 \<le> b then PInf else NInf)"
| "jdiv NInf (Fin b) = (if 0 \<le> b then NInf else PInf)"
| "jdiv PInf PInf = NaN"
| "jdiv PInf NInf = NaN"
| "jdiv NInf PInf = NaN"
| "jdiv NInf NInf = NaN"

text \<open>The comparisons \<open><\<close> and \<open><=\<close>: false as soon as one side is NaN.\<close>

fun jlt :: "jsnum \<Rightarrow> jsnum \<Rightarrow> bool" where
  "jlt (Fin a) (Fin b) = (a < b)"
| "jlt NaN _ = False"
| "jlt _ NaN = False"
| "jlt _ NInf = False"
| "jlt PInf _ = False"
| "jlt NInf _ = True"
| "jlt _ PInf = True"

fun jle :: "jsnum \<Rightarrow> jsnum \<Rightarrow> bool" where
  "jle (Fin a) (Fin b) = (a \<le> b)"
| "jle NaN _ = False"
| "jle _ NaN = False"
| "jle NInf _ = True"
| "jle _ PInf = True"
| "jle PInf _ = False"
| "jle _ NInf = False"

text \<open>\<open>Math.min\<close> and \<open>Math.max\<close> of two arguments: NaN as soon as one argument is NaN.\<close>

fun jmin :: "jsnum \<Rightarrow> jsnum \<Rightarrow> jsnum" where
  "jmin NaN _ = NaN"
| "jmin _ NaN = NaN"
| "jmin a b = (if jle a b then a else b)"

fun jmax :: "jsnum \<Rightarrow> jsnum \<Rightarrow> jsnum" where
  "jmax NaN _ = NaN"
| "jmax _ NaN = NaN"
| "jmax a b = (if jle a b then b else a)"

fun jsqrt :: "jsnum \<Rightarrow> jsnum" where
  "jsqrt (Fin a) = (if 0 \<le> a then Fin (sqrt a) else NaN)"
| "jsqrt PInf = PInf"
| "jsqrt NInf = NaN"
| "jsqrt NaN = NaN"

fun jceil :: "jsnum \<Rightarrow> jsnum" where
  "jceil (Fin a) = Fin (of_int \<lceil>a\<rceil>)"
| "jceil x = x"

text \<open>\<open>Math.round\<close> rounds to the nearest integer, a tie towards \<open>+\<infinity>\<close>.\<close>

fun jround :: "jsnum \<Rightarrow> jsnum" where
  "jround (Fin a) = Fin (of_int \<lfloor>a + 1 / 2\<rfloor>)"
| "jround x = x"

text \<open>
  \<open>Math.pow\<close>. A zero exponent gives 1 whatever the base; otherwise NaN propagates; a
  positive finite base is raised with the real power; the other clauses are the
  remaining cases of the language definition, the sign of a zero left out.
\<close>

definition is_odd_integer :: "real \<Rightarrow> bool" where
  "is_odd_integer y = (y = of_int \<lfloor>y\<rfloor> \<and> odd \<lfloor>y\<rfloor>)"

fun jpow :: "jsnum \<Rightarrow> jsnum \<Rightarrow> jsnum" where
  "jpow b NaN = NaN"
| "jpow b (Fin y) =
     (if y = 0 then Fin 1
      else case b of
        NaN \<Rightarrow> NaN
      | PInf \<Rightarrow> (if 0 < y then PInf else Fin 0)
      | NInf \<Rightarrow> (if 0 < y then (if is_odd_integer y then NInf else PInf) else Fin 0)
      | Fin x \<Rightarrow>
          (if 0 < x then Fin (x powr y)
           else if x = 0 then (if 0 < y then Fin 0 else PInf)
           else if y = of_int \<lfloor>y\<rfloor>
             then Fin ((if odd \<lfloor>y\<rfloor> then - 1 else 1) * (- x) powr y)
           else NaN))"
| "jpow b PInf =
     (case b of
        NaN \<Rightarrow> NaN
      | Fin x \<Rightarrow> (if \<bar>x\<bar> = 1 then NaN else if 1 < \<bar>x\<bar> then PInf else Fin 0)
      | _ \<Rightarrow> PInf)"
| "jpow b NInf =
     (case b of
        NaN \<Rightarrow> NaN
      | Fin x \<Rightarrow> (if \<bar>x\<bar> = 1 then NaN else if 1 < \<bar>x\<bar> then Fin 0 else PInf)
      | _ \<Rightarrow> Fin 0)"

section \<open>Exceptions\<close>

text \<open>
  A handler that throws stops where it throws: the assignments made before stay, the
  rest of the handler is not run, and the event loop goes on with the next event. An
  outcome therefore carries the state in both cases.
\<close>

datatype js_error = ReferenceError | TypeError | IndexSizeError

datatype 'a outcome = Ok 'a | Threw js_error 'a

fun state_of :: "'a outcome \<Rightarrow> 'a" where
  "state_of (Ok s) = s"
| "state_of (Threw e s) = s"

fun and_then :: "'a outcome \<Rightarrow> ('a \<Rightarrow> 'a outcome) \<Rightarrow> 'a outcome" where
  "and_then (Ok s) f = f s"
| "and_then (Threw e s) f = Threw e s"

fun map_outcome :: "('a \<Rightarrow> 'b) \<Rightarrow> 'a outcome \<Rightarrow> 'b outcome" where
  "map_outcome f (Ok s) = Ok (f s)"
| "map_outcome f (Threw e s) = Threw e (f s)"

section \<open>GradioTextAreaBind\<close>

text \<open>
  \<open>target_value\<close> is \<open>this.target.value\<close>, the content of the host page's textarea,
  which the host may change at any time. \<open>inputEvents\<close> is the effect of
  \<open>dispatchEvent\<close>: the \<open>input\<close> events delivered to the host, each with the value the
  textarea held when it was dispatched.
\<close>

record GradioTextAreaBind =
  target_value :: string
  syncLock :: bool
  previousValue :: string
  inputEvents :: "string list"

definition new_GradioTextAreaBind :: "string \<Rightarrow> GradioTextAreaBind" where
  "new_GradioTextAreaBind v =
     \<lparr>target_value = v, syncLock = False, previousValue = [], inputEvents = []\<rparr>"

text \<open>
  The function handed to the \<open>MutationObserver\<close>. Its body calls \<open>callback\<close>, a name
  that is neither a parameter nor a local of the constructor, that \<open>listen\<close> never
  stores anywhere, and that no script of the repository defines globally: evaluating
  it throws a ReferenceError, after \<open>previousValue\<close> and \<open>syncLock\<close> were assigned and
  before \<open>syncLock\<close> is released.
\<close>

definition observer_callback :: "GradioTextAreaBind \<Rightarrow> GradioTextAreaBind outcome" where
  "observer_callback b =
     (if target_value b \<noteq> previousValue b then
        (let b1 = b\<lparr>previousValue := target_value b\<rparr> in
         if \<not> syncLock b1 then Threw ReferenceError (b1\<lparr>syncLock := True\<rparr>)
         else Ok b1)
      else Ok b)"

definition setValue :: "string \<Rightarrow> GradioTextAreaBind \<Rightarrow> GradioTextAreaBind" where
  "setValue newValue b =
     (if syncLock b then b
      else
        (let b1 = b\<lparr>syncLock := True\<rparr>;
             b2 = b1\<lparr>target_value := newValue\<rparr>;
             b3 = b2\<lparr>previousValue := newValue\<rparr>;
             b4 = b3\<lparr>inputEvents := inputEvents b3 @ [target_value b3]\<rparr>
         in b4\<lparr>syncLock := False\<rparr>))"

text \<open>\<open>listen\<close> has an empty body: the callback it is given is dropped.\<close>

definition listen :: "'callback \<Rightarrow> GradioTextAreaBind \<Rightarrow> GradioTextAreaBind" where
  "listen callback b = b"

section \<open>The drawing canvas\<close>

text \<open>
  A bitmap is a list of rows of pixels, a pixel the packed RGBA value, \<open>0\<close> being
  transparent black. \<open>ImageData\<close> objects and the canvas' own backing store are both
  bitmaps. (A bitmap without rows carries no width: a canvas of height zero has no
  pixel to tell it by.)
\<close>

type_synonym pixel = nat
type_synonym ImageData = "pixel list list"
type_synonym point = "jsnum \<times> jsnum"

datatype composite = SourceOver | DestinationOut

datatype paint = Color string | ContrastPattern

record context2d =
  lineWidth :: real
  globalAlpha :: real
  globalCompositeOperation :: composite
  strokeStyle :: paint
  fillStyle :: paint
  lineCap :: string
  lineJoin :: string

definition default_context :: context2d where
  "default_context =
     \<lparr>lineWidth = 1, globalAlpha = 1, globalCompositeOperation = SourceOver,
      strokeStyle = Color ''#000000'', fillStyle = Color ''#000000'',
      lineCap = ''butt'', lineJoin = ''miter''\<rparr>"

text \<open>
  The setters of the 2D context, as the WHATWG standard of the canvas element defines
  them: assigning zero, a negative number, an infinity or NaN to \<open>lineWidth\<close> is
  ignored and leaves the value as it was; so is assigning to \<open>globalAlpha\<close> an infinity,
  NaN or a number outside \<open>[0, 1]\<close>.
\<close>

fun set_lineWidth :: "jsnum \<Rightarrow> context2d \<Rightarrow> context2d" where
  "set_lineWidth (Fin w) c = (if 0 < w then c\<lparr>lineWidth := w\<rparr> else c)"
| "set_lineWidth v c = c"

fun set_globalAlpha :: "jsnum \<Rightarrow> context2d \<Rightarrow> context2d" where
  "set_globalAlpha (Fin a) c = (if 0 \<le> a \<and> a \<le> 1 then c\<lparr>globalAlpha := a\<rparr> else c)"
| "set_globalAlpha v c = c"

record Canvas =
  bitmap :: ImageData
  ctx :: context2d

definition canvas_height :: "Canvas \<Rightarrow> nat" where
  "canvas_height c = length (bitmap c)"

definition canvas_width :: "Canvas \<Rightarrow> nat" where
  "canvas_width c = (case bitmap c of [] \<Rightarrow> 0 | r # _ \<Rightarrow> length r)"

text \<open>Assigning \<open>width\<close> or \<open>height\<close> clears the bitmap and resets the context.\<close>

definition resize_canvas :: "nat \<Rightarrow> nat \<Rightarrow> Canvas \<Rightarrow> Canvas" where
  "resize_canvas w h c = \<lparr>bitmap = replicate h (replicate w 0), ctx = default_context\<rparr>"

text \<open>
  \<open>getImageData(0, 0, width, height)\<close> copies the whole bitmap; it throws an
  IndexSizeError when the width or the height asked for is zero.
\<close>

definition getImageData :: "Canvas \<Rightarrow> ImageData option" where
  "getImageData c =
     (if canvas_width c = 0 \<or> canvas_height c = 0 then None else Some (bitmap c))"

text \<open>
  \<open>putImageData(imageData, 0, 0)\<close> copies the pixels of \<open>imageData\<close> that fall inside
  the canvas over the canvas' own, from the top left corner; the canvas keeps its size.
\<close>

definition put_row :: "pixel list \<Rightarrow> pixel list \<Rightarrow> pixel list" where
  "put_row src dst = take (length dst) src @ drop (length src) dst"

definition put_bitmap :: "ImageData \<Rightarrow> ImageData \<Rightarrow> ImageData" where
  "put_bitmap src dst =
     map (\<lambda>(r, d). put_row r d) (zip src dst) @ drop (length src) dst"

definition putImageData :: "ImageData \<Rightarrow> Canvas \<Rightarrow> Canvas" where
  "putImageData imageData c = c\<lparr>bitmap := put_bitmap imageData (bitmap c)\<rparr>"

definition clearRect :: "Canvas \<Rightarrow> Canvas" where
  "clearRect c = c\<lparr>bitmap := map (map (\<lambda>p. 0)) (bitmap c)\<rparr>"

text \<open>
  What the browser does and the repository only calls is a parameter of the model:
  the PNG encoder behind \<open>toDataURL\<close>, the rasteriser behind \<open>stroke()\<close> (given the
  context's settings and the current path) and behind \<open>arc\<close> followed by \<open>fill()\<close> (given
  the centre and the radius), the drawing of a decoded image at the origin, and the
  re-encoding of the background image element at its natural size.
\<close>

record browser =
  toDataURL :: "ImageData \<Rightarrow> string"
  stroke :: "context2d \<Rightarrow> point list \<Rightarrow> ImageData \<Rightarrow> ImageData"
  fill_arc :: "context2d \<Rightarrow> point \<Rightarrow> jsnum \<Rightarrow> ImageData \<Rightarrow> ImageData"
  draw_decoded :: "string \<Rightarrow> ImageData \<Rightarrow> ImageData"
  encode_image :: "string \<Rightarrow> nat \<Rightarrow> nat \<Rightarrow> string"

section \<open>ForgeCanvas\<close>

record gradio_config =
  version :: string

datatype tool = Brush | Eraser

text \<open>
  The fields of the class that the modelled methods read or write, under their own
  names (\<open>mask\<close> is \<open>mask_mode\<close>), and the parts of the page they reach through
  \<open>document.getElementById\<close>: the drawing canvas and the client size of the image
  container. Cursor shapes, the brush indicator, the upload hint and the opacity of
  the buttons are presentation and are left out.
\<close>

record ForgeCanvas =
  gradioConfig :: "gradio_config option"
  noUpload :: bool
  noScribbles :: bool
  mask_mode :: bool
  img :: "string option"
  imgX :: jsnum
  imgY :: jsnum
  originalWidth :: nat
  originalHeight :: nat
  imgScale :: jsnum
  dragging :: bool
  drawing :: bool
  scribbleColor :: string
  scribbleWidth :: jsnum
  scribbleAlpha :: jsnum
  scribbleSoftness :: jsnum
  history :: "ImageData list"
  historyIndex :: int
  tempDrawPoints :: "point list"
  tempDrawBackground :: "ImageData option"
  backgroundGradioBind :: GradioTextAreaBind
  foregroundGradioBind :: GradioTextAreaBind
  currentTool :: tool
  eraseChanged :: bool
  lastErasePoint :: "point option"
  drawingCanvas :: Canvas
  clientWidth :: nat
  clientHeight :: nat

text \<open>\<open>this.img\<close> is \<open>null\<close> or a data URI; \<open>null\<close> and the empty string are falsy.\<close>

definition has_img :: "ForgeCanvas \<Rightarrow> bool" where
  "has_img s = (case img s of None \<Rightarrow> False | Some d \<Rightarrow> d \<noteq> [])"

text \<open>The overlay: the bitmap of the drawing canvas.\<close>

abbreviation bm :: "ForgeCanvas \<Rightarrow> ImageData" where
  "bm s \<equiv> bitmap (drawingCanvas s)"

subsection \<open>Publishing to the bound fields\<close>

definition onImageUpload :: "browser \<Rightarrow> ForgeCanvas \<Rightarrow> ForgeCanvas" where
  "onImageUpload B s =
     (case img s of
        None \<Rightarrow> s\<lparr>backgroundGradioBind := setValue [] (backgroundGradioBind s)\<rparr>
      | Some d \<Rightarrow>
          if d = [] then s\<lparr>backgroundGradioBind := setValue [] (backgroundGradioBind s)\<rparr>
          else s\<lparr>backgroundGradioBind :=
                   setValue (encode_image B d (originalWidth s) (originalHeight s))
                     (backgroundGradioBind s)\<rparr>)"

definition onDrawingCanvasUpload :: "browser \<Rightarrow> ForgeCanvas \<Rightarrow> ForgeCanvas" where
  "onDrawingCanvasUpload B s =
     (if \<not> has_img s
      then s\<lparr>foregroundGradioBind := setValue [] (foregroundGradioBind s)\<rparr>
      else s\<lparr>foregroundGradioBind :=
               setValue (toDataURL B (bitmap (drawingCanvas s))) (foregroundGradioBind s)\<rparr>)"

subsection \<open>History\<close>

text \<open>
  \<open>xs.slice(0, e)\<close>: a negative end counts from the end of the array.
  \<open>updateUndoRedoButtons\<close> reads the index and the length and writes the two buttons
  only, and is left out.
\<close>

definition js_slice0 :: "'a list \<Rightarrow> int \<Rightarrow> 'a list" where
  "js_slice0 xs e =
     (if e < 0 then take (nat (int (length xs) + e)) xs else take (nat e) xs)"

definition saveState :: "browser \<Rightarrow> ForgeCanvas \<Rightarrow> ForgeCanvas outcome" where
  "saveState B s =
     (case getImageData (drawingCanvas s) of
        None \<Rightarrow> Threw IndexSizeError s
      | Some imageData \<Rightarrow>
          (let s1 = s\<lparr>history := js_slice0 (history s) (historyIndex s + 1)\<rparr>;
               s2 = s1\<lparr>history := history s1 @ [imageData]\<rparr>;
               s3 = s2\<lparr>historyIndex := historyIndex s2 + 1\<rparr>
           in Ok (onDrawingCanvasUpload B s3)))"

text \<open>
  \<open>this.history[this.historyIndex]\<close> is \<open>undefined\<close> outside the array, and
  \<open>putImageData(undefined, 0, 0)\<close> throws a TypeError.
\<close>

definition restoreState :: "browser \<Rightarrow> ForgeCanvas \<Rightarrow> ForgeCanvas outcome" where
  "restoreState B s =
     (if 0 \<le> historyIndex s \<and> historyIndex s < int (length (history s)) then
        Ok (onDrawingCanvasUpload B
              (s\<lparr>drawingCanvas :=
                   putImageData (history s ! nat (historyIndex s)) (drawingCanvas s)\<rparr>))
      else Threw TypeError s)"

definition undo :: "browser \<Rightarrow> ForgeCanvas \<Rightarrow> ForgeCanvas outcome" where
  "undo B s =
     (if 0 < historyIndex s
      then restoreState B (s\<lparr>historyIndex := historyIndex s - 1\<rparr>)
      else Ok s)"

definition redo :: "browser \<Rightarrow> ForgeCanvas \<Rightarrow> ForgeCanvas outcome" where
  "redo B s =
     (if historyIndex s < int (length (history s)) - 1
      then restoreState B (s\<lparr>historyIndex := historyIndex s + 1\<rparr>)
      else Ok s)"

text \<open>
  A run of history events, as the event loop delivers them: the overlay is edited to
  some bitmap and \<open>saveState\<close> is called, or \<open>undo\<close>, or \<open>redo\<close>. An event that throws
  leaves its state to the next one.
\<close>

datatype hist_op = Snapshot ImageData | Undo | Redo

fun run_op :: "browser \<Rightarrow> hist_op \<Rightarrow> ForgeCanvas \<Rightarrow> ForgeCanvas outcome" where
  "run_op B (Snapshot p) s = saveState B (s\<lparr>drawingCanvas := (drawingCanvas s)\<lparr>bitmap := p\<rparr>\<rparr>)"
| "run_op B Undo s = undo B s"
| "run_op B Redo s = redo B s"

fun run_ops :: "browser \<Rightarrow> hist_op list \<Rightarrow> ForgeCanvas \<Rightarrow> ForgeCanvas" where
  "run_ops B [] s = s"
| "run_ops B (x # xs) s = run_ops B xs (state_of (run_op B x s))"

text \<open>The invariant of the history, and the bitmaps a snapshot can be taken of.\<close>

definition hist_inv :: "ForgeCanvas \<Rightarrow> bool" where
  "hist_inv s =
     (if history s = [] then historyIndex s = - 1
      else 0 \<le> historyIndex s \<and> historyIndex s < int (length (history s)))"

definition savable :: "ImageData \<Rightarrow> bool" where
  "savable p = (case p of [] \<Rightarrow> False | r # _ \<Rightarrow> r \<noteq> [])"

definition at_tip :: "ForgeCanvas \<Rightarrow> bool" where
  "at_tip s =
     (historyIndex s = int (length (history s)) - 1
      \<and> (history s \<noteq> [] \<longrightarrow> last (history s) = bitmap (drawingCanvas s)))"

subsection \<open>Fitting and zooming\<close>

text \<open>
  \<open>adjustInitialPositionAndScale\<close>. The natural size of the image is a pair of
  non-negative integers (\<open>img.width\<close>, \<open>img.height\<close>, both \<open>0\<close> before the first load),
  and so is the client size of the container.
\<close>

definition adjustInitialPositionAndScale :: "ForgeCanvas \<Rightarrow> ForgeCanvas" where
  "adjustInitialPositionAndScale s =
     (let containerWidth = jsub (Fin (real (clientWidth s))) (Fin 20);
          containerHeight = jsub (Fin (real (clientHeight s))) (Fin 20);
          scaleX = jdiv containerWidth (Fin (real (originalWidth s)));
          scaleY = jdiv containerHeight (Fin (real (originalHeight s)));
          s1 = s\<lparr>imgScale := jmin scaleX scaleY\<rparr>;
          scaledWidth = jmul (Fin (real (originalWidth s1))) (imgScale s1);
          scaledHeight = jmul (Fin (real (originalHeight s1))) (imgScale s1);
          s2 = s1\<lparr>imgX := jdiv (jsub (Fin (real (clientWidth s1))) scaledWidth) (Fin 2)\<rparr>
      in s2\<lparr>imgY := jdiv (jsub (Fin (real (clientHeight s2))) scaledHeight) (Fin 2)\<rparr>)"

text \<open>The view state: the offset of the scaled image in the container, and the scale.\<close>

definition viewState :: "ForgeCanvas \<Rightarrow> jsnum \<times> jsnum \<times> jsnum" where
  "viewState s = (imgX s, imgY s, imgScale s)"

record dom_event =
  clientX :: jsnum
  clientY :: jsnum
  button :: int
  ctrlKey :: bool
  deltaY :: jsnum

record DOMRect =
  rect_left :: jsnum
  rect_top :: jsnum

text \<open>
  The \<open>wheel\<close> listener of the image container; \<open>rect\<close> is the container's bounding
  rectangle. (In the branch of the control key \<open>scribbleWidth\<close> is read as the number
  it holds after construction or after an earlier wheel event.)
\<close>

definition imageContainer_wheel :: "dom_event \<Rightarrow> DOMRect \<Rightarrow> ForgeCanvas \<Rightarrow> ForgeCanvas" where
  "imageContainer_wheel event rect s =
     (if ctrlKey event then
        (let brushChange = jmul (deltaY event) (Fin (- 0.01))
         in s\<lparr>scribbleWidth := jmax (Fin 1) (jadd (scribbleWidth s) brushChange)\<rparr>)
      else if \<not> has_img s then s
      else
        (let mouseX = jsub (clientX event) (rect_left rect);
             mouseY = jsub (clientY event) (rect_top rect);
             previousScale = imgScale s;
             zoomFactor = jmul (deltaY event) (Fin (- 0.001));
             s1 = s\<lparr>imgScale := jadd (imgScale s) zoomFactor\<rparr>;
             s2 = s1\<lparr>imgScale := jmax (Fin 0.1) (imgScale s1)\<rparr>;
             scaleRatio = jdiv (imgScale s2) previousScale;
             s3 = s2\<lparr>imgX := jsub mouseX (jmul (jsub mouseX (imgX s2)) scaleRatio)\<rparr>
         in s3\<lparr>imgY := jsub mouseY (jmul (jsub mouseY (imgY s3)) scaleRatio)\<rparr>))"

text \<open>
  The image-local point under a point of the container. \<open>handleDraw\<close> and
  \<open>handleErase\<close> compute \<open>(event.clientX - rect.left) / imgScale\<close> with \<open>rect\<close> the
  bounding rectangle of the drawing canvas, which \<open>drawImage\<close> places at \<open>left: imgX\<close>,
  \<open>top: imgY\<close> inside the container: in container coordinates that is
  \<open>(px - imgX) / imgScale\<close>.
\<close>

definition screenToImage :: "ForgeCanvas \<Rightarrow> jsnum \<times> jsnum \<Rightarrow> jsnum \<times> jsnum" where
  "screenToImage s p =
     (jdiv (jsub (fst p) (imgX s)) (imgScale s), jdiv (jsub (snd p) (imgY s)) (imgScale s))"

subsection \<open>Brush and eraser\<close>

text \<open>
  A \<open>for (let i = 0; i < steps; i++)\<close> loop runs once for every natural number below
  \<open>steps\<close>; it never ends when \<open>steps\<close> is \<open>+\<infinity>\<close> and does not run when \<open>steps\<close> is NaN.
\<close>

fun loop_count :: "jsnum \<Rightarrow> nat option" where
  "loop_count (Fin n) = Some (nat \<lceil>n\<rceil>)"
| "loop_count PInf = None"
| "loop_count NInf = Some 0"
| "loop_count NaN = Some 0"

definition stroke_path :: "browser \<Rightarrow> point list \<Rightarrow> Canvas \<Rightarrow> Canvas" where
  "stroke_path B path c = c\<lparr>bitmap := stroke B (ctx c) path (bitmap c)\<rparr>"

text \<open>The passes of the soft brush: the loop at the end of \<open>handleDraw\<close>.\<close>

fun soft_passes :: "browser \<Rightarrow> point list \<Rightarrow> jsnum \<Rightarrow> jsnum \<Rightarrow> nat list \<Rightarrow> Canvas \<Rightarrow> Canvas" where
  "soft_passes B path minLineWidth lineWidthIncrement [] c = c"
| "soft_passes B path minLineWidth lineWidthIncrement (i # rest) c =
     soft_passes B path minLineWidth lineWidthIncrement rest
       (stroke_path B path
          (c\<lparr>ctx := set_lineWidth
                 (jadd minLineWidth (jmul lineWidthIncrement (Fin (real i)))) (ctx c)\<rparr>))"

text \<open>
  \<open>handleDraw\<close>; \<open>rect\<close> is the bounding rectangle of the drawing canvas. The result is
  \<open>None\<close> when the loop of the passes never ends.
\<close>

definition handleDraw :: "browser \<Rightarrow> dom_event \<Rightarrow> DOMRect \<Rightarrow> ForgeCanvas \<Rightarrow> ForgeCanvas outcome option" where
  "handleDraw B event rect s =
     (let x = jdiv (jsub (clientX event) (rect_left rect)) (imgScale s);
          y = jdiv (jsub (clientY event) (rect_top rect)) (imgScale s);
          s1 = s\<lparr>tempDrawPoints := tempDrawPoints s @ [(x, y)]\<rparr>
      in case tempDrawBackground s1 of
           None \<Rightarrow> Some (Threw TypeError s1)
         | Some background \<Rightarrow>
            (let c1 = putImageData background (drawingCanvas s1);
                 path = tempDrawPoints s1;
                 c2 = c1\<lparr>ctx := (ctx c1)\<lparr>lineCap := ''round''\<rparr>\<rparr>;
                 c3 = c2\<lparr>ctx := (ctx c2)\<lparr>lineJoin := ''round''\<rparr>\<rparr>;
                 c4 = c3\<lparr>ctx := set_lineWidth
                        (jmul (jdiv (scribbleWidth s1) (imgScale s1)) (Fin 20)) (ctx c3)\<rparr>
             in if mask_mode s1 then
                  Some (Ok (s1\<lparr>drawingCanvas :=
                     stroke_path B path (c4\<lparr>ctx := (ctx c4)\<lparr>strokeStyle := ContrastPattern\<rparr>\<rparr>)\<rparr>))
                else
                 (let c5 = c4\<lparr>ctx := (ctx c4)\<lparr>strokeStyle := Color (scribbleColor s1)\<rparr>\<rparr>
                  in if jle (scribbleAlpha s1) (Fin 0) then
                       (let c6 = c5\<lparr>ctx := (ctx c5)\<lparr>globalCompositeOperation := DestinationOut\<rparr>\<rparr>;
                            c7 = c6\<lparr>ctx := set_globalAlpha (Fin 1) (ctx c6)\<rparr>
                        in Some (Ok (s1\<lparr>drawingCanvas := stroke_path B path c7\<rparr>)))
                     else
                      (let c6 = c5\<lparr>ctx := (ctx c5)\<lparr>globalCompositeOperation := SourceOver\<rparr>\<rparr>
                       in if jle (scribbleSoftness s1) (Fin 0) then
                            (let c7 = c6\<lparr>ctx := set_globalAlpha
                                   (jdiv (scribbleAlpha s1) (Fin 100)) (ctx c6)\<rparr>
                             in Some (Ok (s1\<lparr>drawingCanvas := stroke_path B path c7\<rparr>)))
                          else
                           (let minLineWidth = jmul (Fin (lineWidth (ctx c6)))
                                  (jsub (Fin 1) (jdiv (scribbleSoftness s1) (Fin 150)));
                                maxLineWidth = jmul (Fin (lineWidth (ctx c6)))
                                  (jadd (Fin 1) (jdiv (scribbleSoftness s1) (Fin 150)));
                                steps = jround (jadd (Fin 5) (jdiv (scribbleSoftness s1) (Fin 5)));
                                lineWidthIncrement =
                                  jdiv (jsub maxLineWidth minLineWidth) (jsub steps (Fin 1));
                                c7 = c6\<lparr>ctx := set_globalAlpha
                                   (jsub (Fin 1)
                                      (jpow (jsub (Fin 1)
                                               (jmin (jdiv (scribbleAlpha s1) (Fin 100)) (Fin 0.95)))
                                            (jdiv (Fin 1) steps)))
                                   (ctx c6)\<rparr>
                            in case loop_count steps of
                                 None \<Rightarrow> None
                               | Some n \<Rightarrow>
                                   Some (Ok (s1\<lparr>drawingCanvas :=
                                     soft_passes B path minLineWidth lineWidthIncrement
                                       [0..<n] c7\<rparr>)))))))"

text \<open>
  One dab of the eraser: \<open>beginPath\<close>, \<open>arc\<close>, the fill style, the compositing mode,
  \<open>fill\<close>. \<open>arc\<close> throws an IndexSizeError for a negative radius (\<open>None\<close> here).
\<close>

definition dab :: "browser \<Rightarrow> point \<Rightarrow> jsnum \<Rightarrow> Canvas \<Rightarrow> Canvas option" where
  "dab B centre radius c =
     (if jlt radius (Fin 0) then None
      else
        (let c1 = c\<lparr>ctx := (ctx c)\<lparr>fillStyle := Color ''rgba(0,0,0,1)''\<rparr>\<rparr>;
             c2 = c1\<lparr>ctx := (ctx c1)\<lparr>globalCompositeOperation := DestinationOut\<rparr>\<rparr>
         in Some (c2\<lparr>bitmap := fill_arc B (ctx c2) centre radius (bitmap c2)\<rparr>)))"

text \<open>The interpolated dabs: the loop of \<open>handleErase\<close>, \<open>lastPoint\<close> being \<open>lastErasePoint\<close>.\<close>

fun erase_dabs :: "browser \<Rightarrow> point \<Rightarrow> jsnum \<Rightarrow> jsnum \<Rightarrow> jsnum \<Rightarrow> jsnum \<Rightarrow> nat list \<Rightarrow> Canvas \<Rightarrow> Canvas option" where
  "erase_dabs B lastPoint dx dy steps radius [] c = Some c"
| "erase_dabs B lastPoint dx dy steps radius (i # rest) c =
     (let t = jdiv (Fin (real i)) steps;
          interpX = jadd (fst lastPoint) (jmul dx t);
          interpY = jadd (snd lastPoint) (jmul dy t)
      in case dab B (interpX, interpY) radius c of
           None \<Rightarrow> None
         | Some c' \<Rightarrow> erase_dabs B lastPoint dx dy steps radius rest c')"

text \<open>
  \<open>handleErase\<close>. The distance, the quotient under \<open>Math.ceil\<close> and the comparison with
  a quarter of the diameter are computed here on the reals; the code computes them
  in doubles, whose rounding can put a quotient on the other side of an integer, or
  a distance on the other side of the threshold, when the exact value lies on it.
\<close>

definition handleErase :: "browser \<Rightarrow> dom_event \<Rightarrow> DOMRect \<Rightarrow> ForgeCanvas \<Rightarrow> ForgeCanvas outcome option" where
  "handleErase B event rect s =
     (let x = jdiv (jsub (clientX event) (rect_left rect)) (imgScale s);
          y = jdiv (jsub (clientY event) (rect_top rect)) (imgScale s);
          eraserSize = jmul (jdiv (scribbleWidth s) (imgScale s)) (Fin 20);
          s1 = (case lastErasePoint s of None \<Rightarrow> s\<lparr>lastErasePoint := Some (x, y)\<rparr> | Some p \<Rightarrow> s);
          lastPoint = (case lastErasePoint s1 of None \<Rightarrow> (x, y) | Some p \<Rightarrow> p);
          dx = jsub x (fst lastPoint);
          dy = jsub y (snd lastPoint);
          distance = jsqrt (jadd (jmul dx dx) (jmul dy dy));
          finish = (\<lambda>c. (s1\<lparr>drawingCanvas := c\<rparr>)\<lparr>lastErasePoint := Some (x, y), eraseChanged := True\<rparr>)
      in if jlt distance (jdiv eraserSize (Fin 4)) then
           (case dab B (x, y) (jdiv eraserSize (Fin 2)) (drawingCanvas s1) of
              None \<Rightarrow> Some (Threw IndexSizeError s1)
            | Some c \<Rightarrow> Some (Ok (finish c)))
         else
           (let steps = jceil (jdiv distance (jdiv eraserSize (Fin 4)))
            in case loop_count steps of
                 None \<Rightarrow> None
               | Some n \<Rightarrow>
                  (case erase_dabs B lastPoint dx dy steps (jdiv eraserSize (Fin 2)) [0..<n]
                          (drawingCanvas s1) of
                     None \<Rightarrow> Some (Threw IndexSizeError s1)
                   | Some c \<Rightarrow> Some (Ok (finish c)))))"

subsection \<open>Pointer events on the drawing canvas\<close>

text \<open>\<open>rect\<close> is the bounding rectangle of the drawing canvas.\<close>

definition drawingCanvas_pointerdown :: "browser \<Rightarrow> dom_event \<Rightarrow> DOMRect \<Rightarrow> ForgeCanvas \<Rightarrow> ForgeCanvas outcome option" where
  "drawingCanvas_pointerdown B event rect s =
     (if \<not> has_img s \<or> button event \<noteq> 0 \<or> noScribbles s then Some (Ok s)
      else
        (let s1 = s\<lparr>drawing := True\<rparr>;
             s2 = s1\<lparr>tempDrawPoints :=
                    [(jdiv (jsub (clientX event) (rect_left rect)) (imgScale s1),
                      jdiv (jsub (clientY event) (rect_top rect)) (imgScale s1))]\<rparr>
         in case getImageData (drawingCanvas s2) of
              None \<Rightarrow> Some (Threw IndexSizeError s2)
            | Some imageData \<Rightarrow>
               (let s3 = s2\<lparr>tempDrawBackground := Some imageData\<rparr>
                in if currentTool s3 = Eraser then handleErase B event rect s3
                   else if mask_mode s3 then
                     handleDraw B event rect
                       (s3\<lparr>drawingCanvas := (drawingCanvas s3)\<lparr>ctx := (ctx (drawingCanvas s3))
                             \<lparr>globalCompositeOperation := SourceOver,
                              strokeStyle := ContrastPattern\<rparr>\<rparr>\<rparr>)
                   else handleDraw B event rect s3)))"

definition drawingCanvas_pointermove :: "browser \<Rightarrow> dom_event \<Rightarrow> DOMRect \<Rightarrow> ForgeCanvas \<Rightarrow> ForgeCanvas outcome option" where
  "drawingCanvas_pointermove B event rect s =
     (if drawing s then
        (if currentTool s = Eraser then handleErase B event rect s
         else handleDraw B event rect s)
      else Some (Ok s))"

definition drawingCanvas_pointerup :: "browser \<Rightarrow> ForgeCanvas \<Rightarrow> ForgeCanvas outcome" where
  "drawingCanvas_pointerup B s =
     (if drawing s then
        (let s1 = s\<lparr>drawing := False\<rparr>;
             s2 = s1\<lparr>lastErasePoint := None\<rparr>
         in if eraseChanged s2
            then and_then (saveState B s2) (\<lambda>s3. Ok (s3\<lparr>eraseChanged := False\<rparr>))
            else Ok s2)
      else Ok s)"

definition drawingCanvas_pointerleave :: "browser \<Rightarrow> ForgeCanvas \<Rightarrow> ForgeCanvas outcome" where
  "drawingCanvas_pointerleave B s =
     (if drawing s then
        (let s1 = s\<lparr>drawing := False\<rparr>;
             s2 = s1\<lparr>lastErasePoint := None\<rparr>
         in if eraseChanged s2
            then and_then (saveState B s2) (\<lambda>s3. Ok (s3\<lparr>eraseChanged := False\<rparr>))
            else Ok s2)
      else Ok s)"

text \<open>
  The pointer-move events of a gesture, one after the other, each with the bounding
  rectangle of the canvas at its time. An event that throws leaves its state to the
  next; the result is \<open>None\<close> when one of them never returns.
\<close>

fun pointer_moves :: "browser \<Rightarrow> (dom_event \<times> DOMRect) list \<Rightarrow> ForgeCanvas \<Rightarrow> ForgeCanvas option" where
  "pointer_moves B [] s = Some s"
| "pointer_moves B (m # ms) s =
     (case drawingCanvas_pointermove B (fst m) (snd m) s of
        None \<Rightarrow> None
      | Some out \<Rightarrow> pointer_moves B ms (state_of out))"

subsection \<open>Loading\<close>

definition startsWith :: "string \<Rightarrow> string \<Rightarrow> bool" where
  "startsWith str prefix = (take (length prefix) str = prefix)"

text \<open>
  \<open>uploadBase64\<close> and \<open>uploadBase64DrawingCanvas\<close> start a decode by assigning
  \<open>img.src\<close> and return; the second component of the result is the data handed to the
  decoder, if any. The \<open>onload\<close> functions are what runs when the decode succeeds, with
  the natural size of the decoded image. \<open>drawImage\<close> writes the style of the image
  element and of the canvas from the fields and changes none of them.
\<close>

definition uploadBase64 :: "browser \<Rightarrow> string \<Rightarrow> ForgeCanvas \<Rightarrow> ForgeCanvas outcome \<times> string option" where
  "uploadBase64 B base64Data s =
     (if (case gradioConfig s of None \<Rightarrow> False | Some g \<Rightarrow> \<not> startsWith (version g) ''4'')
      then (Ok s, None)
      else if gradioConfig s = None then (Ok s, None)
      else if base64Data \<noteq> [] then (Ok s, Some base64Data)
      else
        (let s1 = s\<lparr>img := None\<rparr>;
             s2 = s1\<lparr>drawingCanvas := resize_canvas 1 1 (drawingCanvas s1)\<rparr>;
             s3 = adjustInitialPositionAndScale s2;
             s4 = onImageUpload B s3
         in (saveState B s4, None)))"

definition uploadBase64_onload :: "browser \<Rightarrow> string \<Rightarrow> nat \<Rightarrow> nat \<Rightarrow> ForgeCanvas \<Rightarrow> ForgeCanvas outcome" where
  "uploadBase64_onload B base64Data w h s =
     (let s1 = s\<lparr>img := Some base64Data\<rparr>;
          s2 = s1\<lparr>originalWidth := w\<rparr>;
          s3 = s2\<lparr>originalHeight := h\<rparr>;
          s4 = (if canvas_width (drawingCanvas s3) \<noteq> w \<or> canvas_height (drawingCanvas s3) \<noteq> h
                then s3\<lparr>drawingCanvas := resize_canvas w h (drawingCanvas s3)\<rparr> else s3);
          s5 = adjustInitialPositionAndScale s4;
          s6 = onImageUpload B s5
      in saveState B s6)"

definition uploadBase64DrawingCanvas :: "browser \<Rightarrow> string \<Rightarrow> ForgeCanvas \<Rightarrow> ForgeCanvas outcome \<times> string option" where
  "uploadBase64DrawingCanvas B base64Data s =
     (if base64Data \<noteq> [] then (Ok s, Some base64Data)
      else (saveState B (s\<lparr>drawingCanvas := clearRect (drawingCanvas s)\<rparr>), None))"

definition uploadBase64DrawingCanvas_onload :: "browser \<Rightarrow> string \<Rightarrow> ForgeCanvas \<Rightarrow> ForgeCanvas outcome" where
  "uploadBase64DrawingCanvas_onload B base64Data s =
     (let c1 = clearRect (drawingCanvas s);
          c2 = c1\<lparr>bitmap := draw_decoded B base64Data (bitmap c1)\<rparr>
      in saveState B (s\<lparr>drawingCanvas := c2\<rparr>))"

subsection \<open>Construction and the bound fields\<close>

text \<open>
  The constructor with the default values of its optional parameters, followed by the
  part of \<open>start\<close> that touches the model: the canvas takes the client size of the
  container and the two callbacks are handed to \<open>listen\<close>. The arguments are the
  page's \<open>gradio_config\<close>, the client size of the container and the contents of the two
  textareas.
\<close>

definition new_ForgeCanvas :: "browser \<Rightarrow> gradio_config option \<Rightarrow> nat \<Rightarrow> nat \<Rightarrow> string \<Rightarrow> string \<Rightarrow> ForgeCanvas" where
  "new_ForgeCanvas B config w h background foreground =
     \<lparr>gradioConfig = config, noUpload = False, noScribbles = False, mask_mode = False,
      img = None, imgX = Fin 0, imgY = Fin 0, originalWidth = 0, originalHeight = 0,
      imgScale = Fin 1, dragging = False, drawing = False,
      scribbleColor = ''#000000'', scribbleWidth = Fin 4, scribbleAlpha = Fin 100,
      scribbleSoftness = Fin 0, history = [], historyIndex = - 1,
      tempDrawPoints = [], tempDrawBackground = None,
      backgroundGradioBind =
        listen (uploadBase64 B) (new_GradioTextAreaBind background),
      foregroundGradioBind =
        listen (uploadBase64DrawingCanvas B) (new_GradioTextAreaBind foreground),
      currentTool = Brush, eraseChanged = False, lastErasePoint = None,
      drawingCanvas = resize_canvas w h \<lparr>bitmap = [], ctx = default_context\<rparr>,
      clientWidth = w, clientHeight = h\<rparr>"

text \<open>
  The host page writes \<open>v\<close> into one of the two textareas and the observer of that
  channel runs.
\<close>

definition background_field_changed :: "string \<Rightarrow> ForgeCanvas \<Rightarrow> ForgeCanvas outcome" where
  "background_field_changed v s =
     map_outcome (\<lambda>b. s\<lparr>backgroundGradioBind := b\<rparr>)
       (observer_callback ((backgroundGradioBind s)\<lparr>target_value := v\<rparr>))"

definition foreground_field_changed :: "string \<Rightarrow> ForgeCanvas \<Rightarrow> ForgeCanvas outcome" where
  "foreground_field_changed v s =
     map_outcome (\<lambda>b. s\<lparr>foregroundGradioBind := b\<rparr>)
       (observer_callback ((foregroundGradioBind s)\<lparr>target_value := v\<rparr>))"

subsection \<open>A browser to run the model on\<close>

text \<open>
  A small rasteriser for evaluating the model on concrete inputs. As a canvas does, a
  stroke drops the segments of length zero and draws nothing when no segment is
  left; otherwise it paints the transparent pixels that hold a vertex of the path with
  one more than the integer part of the line width, and leaves every other pixel. A
  dab clears every pixel, a decoded overlay is drawn as the value \<open>7\<close>, and a bitmap is
  encoded by one letter for each pixel (\<open>A\<close> for a transparent one).
\<close>

definition has_segment :: "point list \<Rightarrow> bool" where
  "has_segment path = list_ex (\<lambda>p. p \<noteq> hd path) path"

definition vertex_in :: "point \<Rightarrow> nat \<Rightarrow> nat \<Rightarrow> bool" where
  "vertex_in p x y =
     (case p of
        (Fin px, Fin py) \<Rightarrow> \<lfloor>px\<rfloor> = int x \<and> \<lfloor>py\<rfloor> = int y
      | _ \<Rightarrow> False)"

definition test_stroke :: "context2d \<Rightarrow> point list \<Rightarrow> ImageData \<Rightarrow> ImageData" where
  "test_stroke c path b =
     (if has_segment path then
        map (\<lambda>(y, row).
               map (\<lambda>(x, p). if p = 0 \<and> list_ex (\<lambda>v. vertex_in v x y) path
                              then nat \<lfloor>lineWidth c\<rfloor> + 1 else p)
                 (zip [0..<length row] row))
          (zip [0..<length b] b)
      else b)"

definition test_browser :: browser where
  "test_browser =
     \<lparr>toDataURL = (\<lambda>b. ''data:image/png;base64,'' @ concat (map (map (\<lambda>p. if p = 0 then CHR ''A'' else CHR ''/'')) b)),
      stroke = test_stroke,
      fill_arc = (\<lambda>c centre radius b. map (map (\<lambda>p. 0)) b),
      draw_decoded = (\<lambda>d b. map (map (\<lambda>p. 7)) b),
      encode_image = (\<lambda>d w h. d)\<rparr>"

text \<open>
  The widget after a one-pixel image was loaded into it, in a container of 400 by 400
  on a page of Gradio 4.
\<close>

definition loaded_state :: ForgeCanvas where
  "loaded_state =
     state_of (uploadBase64_onload test_browser ''data:image/png;base64,AAAA'' 1 1
       (new_ForgeCanvas test_browser (Some \<lparr>version = ''4.40.0''\<rparr>) 400 400 [] []))"

text \<open>
  The same widget after an image of 4 by 4 pixels was loaded instead, and a second
  pointer event, 190 pixels to the right of the first.
\<close>

definition loaded_4x4 :: ForgeCanvas where
  "loaded_4x4 =
     state_of (uploadBase64_onload test_browser ''data:image/png;base64,AAAA'' 4 4
       (new_ForgeCanvas test_browser (Some \<lparr>version = ''4.40.0''\<rparr>) 400 400 [] []))"

text \<open>
  A state in the middle of a brush gesture on a one-pixel overlay, with alpha \<open>50\<close>
  and the softness given, and a pointer event on the canvas.
\<close>

definition brush_gesture_state :: "real \<Rightarrow> ForgeCanvas" where
  "brush_gesture_state softness =
     (new_ForgeCanvas test_browser (Some \<lparr>version = ''4.40.0''\<rparr>) 400 400 [] [])
       \<lparr>img := Some ''data:image/png;base64,AAAA'', originalWidth := 1, originalHeight := 1,
        drawing := True, scribbleAlpha := Fin 50, scribbleSoftness := Fin softness,
        tempDrawPoints := [(Fin 0, Fin 0)], tempDrawBackground := Some [[0]],
        drawingCanvas := \<lparr>bitmap = [[0]], ctx = default_context\<rparr>\<rparr>"

definition pointer_event :: dom_event where
  "pointer_event =
     \<lparr>clientX = Fin 60, clientY = Fin 50, button = 0, ctrlKey = False, deltaY = Fin 0\<rparr>"

definition canvas_rect :: DOMRect where
  "canvas_rect = \<lparr>rect_left = Fin 50, rect_top = Fin 40\<rparr>"

definition move_event :: dom_event where
  "move_event =
     \<lparr>clientX = Fin 250, clientY = Fin 50, button = 0, ctrlKey = False, deltaY = Fin 0\<rparr>"

text \<open>
  Source-over compositing on the alpha channel: a pass of opacity \<open>a\<close> over a pixel
  of coverage \<open>d\<close> leaves coverage \<open>a + d * (1 - a)\<close>.
\<close>

definition source_over_alpha :: "real \<Rightarrow> real \<Rightarrow> real" where
  "source_over_alpha a d = a + d * (1 - a)"

section \<open>Verification\<close>

text \<open>Unfolding sets for evaluating the model on concrete inputs.\<close>

lemmas history_eval =
  new_ForgeCanvas_def new_GradioTextAreaBind_def listen_def resize_canvas_def
  saveState_def undo_def redo_def restoreState_def getImageData_def canvas_width_def
  canvas_height_def js_slice0_def onDrawingCanvasUpload_def has_img_def putImageData_def
  put_bitmap_def put_row_def setValue_def savable_def Let_def

lemmas brush_gesture_eval =
  brush_gesture_state_def new_ForgeCanvas_def pointer_event_def canvas_rect_def

text \<open>The loaded widget, field by field.\<close>

lemma loaded_state_eq:
  "loaded_state =
     (new_ForgeCanvas test_browser (Some \<lparr>version = ''4.40.0''\<rparr>) 400 400 [] [])
       \<lparr>img := Some ''data:image/png;base64,AAAA'', originalWidth := 1, originalHeight := 1,
        drawingCanvas := \<lparr>bitmap = [[0]], ctx = default_context\<rparr>,
        imgScale := Fin 380, imgX := Fin 10, imgY := Fin 10,
        backgroundGradioBind :=
          \<lparr>target_value = ''data:image/png;base64,AAAA'', syncLock = False,
           previousValue = ''data:image/png;base64,AAAA'',
           inputEvents = [''data:image/png;base64,AAAA'']\<rparr>,
        history := [[[0]]], historyIndex := 0,
        foregroundGradioBind :=
          \<lparr>target_value = ''data:image/png;base64,A'', syncLock = False,
           previousValue = ''data:image/png;base64,A'',
           inputEvents = [''data:image/png;base64,A'']\<rparr>\<rparr>"
  by (simp add: loaded_state_def uploadBase64_onload_def adjustInitialPositionAndScale_def
      onImageUpload_def test_browser_def jsub_def history_eval)

lemma handleDraw_frame:
  assumes "handleDraw B e r s = Some out"
  shows "history (state_of out) = history s \<and> historyIndex (state_of out) = historyIndex s
       \<and> foregroundGradioBind (state_of out) = foregroundGradioBind s
       \<and> eraseChanged (state_of out) = eraseChanged s
       \<and> currentTool (state_of out) = currentTool s"
  using assms
  unfolding handleDraw_def Let_def
  by (auto simp del: jround.simps jpow.simps jadd.simps jdiv.simps jmul.simps jmin.simps
        jle.simps loop_count.simps set_lineWidth.simps set_globalAlpha.simps
      split: option.splits if_splits)

lemma pointermove_frame:
  assumes "currentTool s = Brush" "drawingCanvas_pointermove B e r s = Some out"
  shows "history (state_of out) = history s \<and> historyIndex (state_of out) = historyIndex s
       \<and> foregroundGradioBind (state_of out) = foregroundGradioBind s
       \<and> eraseChanged (state_of out) = eraseChanged s
       \<and> currentTool (state_of out) = currentTool s"
proof (cases "drawing s")
  case True
  with assms have "handleDraw B e r s = Some out"
    by (simp add: drawingCanvas_pointermove_def)
  then show ?thesis by (rule handleDraw_frame)
next
  case False
  with assms have "out = Ok s" by (simp add: drawingCanvas_pointermove_def)
  then show ?thesis by simp
qed

lemma pointer_moves_frame:
  assumes "currentTool s = Brush" "pointer_moves B ms s = Some s'"
  shows "history s' = history s \<and> historyIndex s' = historyIndex s
       \<and> foregroundGradioBind s' = foregroundGradioBind s
       \<and> eraseChanged s' = eraseChanged s \<and> currentTool s' = currentTool s"
  using assms
proof (induction ms arbitrary: s)
  case Nil
  then show ?case by simp
next
  case (Cons m ms)
  from Cons.prems(2) obtain out where
    out: "drawingCanvas_pointermove B (fst m) (snd m) s = Some out"
    and rest: "pointer_moves B ms (state_of out) = Some s'"
    by (auto split: option.splits)
  note f = pointermove_frame [OF Cons.prems(1) out]
  from f have "currentTool (state_of out) = Brush" using Cons.prems(1) by simp
  from Cons.IH [OF this rest] f show ?case by simp
qed

lemma pointerdown_frame:
  assumes "currentTool s = Brush" "drawingCanvas_pointerdown B e r s = Some out"
  shows "history (state_of out) = history s \<and> historyIndex (state_of out) = historyIndex s
       \<and> foregroundGradioBind (state_of out) = foregroundGradioBind s
       \<and> eraseChanged (state_of out) = eraseChanged s
       \<and> currentTool (state_of out) = currentTool s"
proof (cases "\<not> has_img s \<or> button e \<noteq> 0 \<or> noScribbles s")
  case True
  with assms(2) have "out = Ok s" by (auto simp: drawingCanvas_pointerdown_def)
  then show ?thesis by simp
next
  case False
  let ?s2 = "s\<lparr>drawing := True,
      tempDrawPoints := [(jdiv (jsub (clientX e) (rect_left r)) (imgScale s),
                          jdiv (jsub (clientY e) (rect_top r)) (imgScale s))]\<rparr>"
  show ?thesis
  proof (cases "getImageData (drawingCanvas s)")
    case None
    with False assms(2) have "out = Threw IndexSizeError ?s2"
      by (simp add: drawingCanvas_pointerdown_def Let_def)
    then show ?thesis by simp
  next
    case (Some d)
    let ?s3 = "?s2\<lparr>tempDrawBackground := Some d\<rparr>"
    let ?s4 = "?s3\<lparr>drawingCanvas := (drawingCanvas ?s3)\<lparr>ctx := (ctx (drawingCanvas ?s3))
                 \<lparr>globalCompositeOperation := SourceOver, strokeStyle := ContrastPattern\<rparr>\<rparr>\<rparr>"
    from False Some assms have
      "handleDraw B e r ?s4 = Some out \<or> handleDraw B e r ?s3 = Some out"
      by (simp add: drawingCanvas_pointerdown_def Let_def split: if_splits)
    then show ?thesis
    proof
      assume "handleDraw B e r ?s4 = Some out"
      from handleDraw_frame [OF this] show ?thesis by simp
    next
      assume "handleDraw B e r ?s3 = Some out"
      from handleDraw_frame [OF this] show ?thesis by simp
    qed
  qed
qed

lemma gesture_end_frame:
  assumes "\<not> eraseChanged s"
  shows "history (state_of (drawingCanvas_pointerup B s)) = history s"
    and "historyIndex (state_of (drawingCanvas_pointerup B s)) = historyIndex s"
    and "foregroundGradioBind (state_of (drawingCanvas_pointerup B s)) = foregroundGradioBind s"
    and "bm (state_of (drawingCanvas_pointerup B s)) = bm s"
    and "drawingCanvas_pointerleave B s = drawingCanvas_pointerup B s"
  using assms
  by (simp_all add: drawingCanvas_pointerup_def drawingCanvas_pointerleave_def Let_def)

lemma replicate_4: "replicate 4 x = [x, x, x, x]"
  by (simp add: numeral_eq_Suc)

lemma upt_0_4: "[0..<4] = [0, 1, 2, 3]"
  by (simp add: upt_rec)

lemma loaded_4x4_eq:
  "loaded_4x4 =
     (new_ForgeCanvas test_browser (Some \<lparr>version = ''4.40.0''\<rparr>) 400 400 [] [])
       \<lparr>img := Some ''data:image/png;base64,AAAA'', originalWidth := 4, originalHeight := 4,
        drawingCanvas := \<lparr>bitmap = [[0, 0, 0, 0], [0, 0, 0, 0], [0, 0, 0, 0], [0, 0, 0, 0]],
          ctx = default_context\<rparr>,
        imgScale := Fin 95, imgX := Fin 10, imgY := Fin 10,
        backgroundGradioBind :=
          \<lparr>target_value = ''data:image/png;base64,AAAA'', syncLock = False,
           previousValue = ''data:image/png;base64,AAAA'',
           inputEvents = [''data:image/png;base64,AAAA'']\<rparr>,
        history := [[[0, 0, 0, 0], [0, 0, 0, 0], [0, 0, 0, 0], [0, 0, 0, 0]]], historyIndex := 0,
        foregroundGradioBind :=
          \<lparr>target_value = ''data:image/png;base64,AAAAAAAAAAAAAAAA'', syncLock = False,
           previousValue = ''data:image/png;base64,AAAAAAAAAAAAAAAA'',
           inputEvents = [''data:image/png;base64,AAAAAAAAAAAAAAAA'']\<rparr>\<rparr>"
  by (simp add: loaded_4x4_def uploadBase64_onload_def adjustInitialPositionAndScale_def
      onImageUpload_def test_browser_def jsub_def replicate_4 history_eval)

text \<open>
  Claim C1 on the code. A brush gesture is a pointer-down on the drawing canvas, any
  number of pointer-moves and a pointer-up or a pointer-leave. Whatever the browser's
  strokes painted on the way, the gesture ends without a snapshot: the history, its
  index and the foreground field are what they were before the pointer-down, and the
  overlay keeps what was painted. The two listeners that end a gesture call
  \<open>saveState\<close> only when \<open>eraseChanged\<close> is set, and only \<open>handleErase\<close> sets it.
\<close>

theorem brush_gesture_takes_no_snapshot:
  assumes "currentTool s = Brush" and "\<not> eraseChanged s"
    and "drawingCanvas_pointerdown B e r s = Some d"
    and "pointer_moves B ms (state_of d) = Some s2"
  shows "history (state_of (drawingCanvas_pointerup B s2)) = history s
       \<and> historyIndex (state_of (drawingCanvas_pointerup B s2)) = historyIndex s
       \<and> foregroundGradioBind (state_of (drawingCanvas_pointerup B s2)) = foregroundGradioBind s
       \<and> bm (state_of (drawingCanvas_pointerup B s2)) = bm s2
       \<and> drawingCanvas_pointerleave B s2 = drawingCanvas_pointerup B s2"
proof -
  note d = pointerdown_frame [OF assms(1,3)]
  from d assms(1) have "currentTool (state_of d) = Brush" by simp
  note m = pointer_moves_frame [OF this assms(4)]
  from d m assms(2) have "\<not> eraseChanged s2" by simp
  note u = gesture_end_frame [OF this, of B]
  show ?thesis using d m u by simp
qed

text \<open>
  On the widget with the image of 4 by 4 pixels: the pointer goes down, moves 190
  pixels to the right (two pixels of the image) and goes up. The stroke paints the
  pixels under its two ends, and the history still holds the one snapshot of the
  load. The same gesture with the eraser, made next, does append a snapshot.
\<close>

theorem brush_gesture_takes_no_snapshot_witness:
  "currentTool loaded_4x4 = Brush \<and> \<not> eraseChanged loaded_4x4
   \<and> bm loaded_4x4 = [[0, 0, 0, 0], [0, 0, 0, 0], [0, 0, 0, 0], [0, 0, 0, 0]]
   \<and> history loaded_4x4 = [[[0, 0, 0, 0], [0, 0, 0, 0], [0, 0, 0, 0], [0, 0, 0, 0]]]
   \<and> historyIndex loaded_4x4 = 0
   \<and> (\<exists>d s2 s3. drawingCanvas_pointerdown test_browser pointer_event canvas_rect loaded_4x4
                    = Some d
          \<and> pointer_moves test_browser [(move_event, canvas_rect)] (state_of d) = Some s2
          \<and> drawingCanvas_pointerup test_browser s2 = Ok s3
          \<and> bm s3 = [[1, 0, 1, 0], [0, 0, 0, 0], [0, 0, 0, 0], [0, 0, 0, 0]]
          \<and> history s3 = [[[0, 0, 0, 0], [0, 0, 0, 0], [0, 0, 0, 0], [0, 0, 0, 0]]]
          \<and> historyIndex s3 = 0
          \<and> foregroundGradioBind s3 = foregroundGradioBind loaded_4x4
          \<and> (\<exists>e1 e2. drawingCanvas_pointerdown test_browser pointer_event canvas_rect
                          (s3\<lparr>currentTool := Eraser\<rparr>) = Some (Ok e1)
                 \<and> drawingCanvas_pointerup test_browser e1 = Ok e2
                 \<and> history e2 = [[[0, 0, 0, 0], [0, 0, 0, 0], [0, 0, 0, 0], [0, 0, 0, 0]],
                                  [[0, 0, 0, 0], [0, 0, 0, 0], [0, 0, 0, 0], [0, 0, 0, 0]]]
                 \<and> historyIndex e2 = 1))"
proof -
  let ?Z = "[[0, 0, 0, 0], [0, 0, 0, 0], [0, 0, 0, 0], [0, 0, 0, 0]] :: ImageData"
  let ?P = "[[1, 0, 1, 0], [0, 0, 0, 0], [0, 0, 0, 0], [0, 0, 0, 0]] :: ImageData"
  let ?k = "default_context\<lparr>lineCap := ''round'', lineJoin := ''round'',
              lineWidth := 4 / 95 * 20\<rparr>"
  define s1 where "s1 = loaded_4x4
      \<lparr>drawing := True,
       tempDrawPoints := [(Fin (2 / 19), Fin (2 / 19)), (Fin (2 / 19), Fin (2 / 19))],
       tempDrawBackground := Some ?Z, drawingCanvas := \<lparr>bitmap = ?Z, ctx = ?k\<rparr>\<rparr>"
  define s2 where "s2 = s1
      \<lparr>tempDrawPoints := [(Fin (2 / 19), Fin (2 / 19)), (Fin (2 / 19), Fin (2 / 19)),
                          (Fin (40 / 19), Fin (2 / 19))],
       drawingCanvas := \<lparr>bitmap = ?P, ctx = ?k\<rparr>\<rparr>"
  define s3 where "s3 = s2\<lparr>drawing := False, lastErasePoint := None\<rparr>"
  have start: "currentTool loaded_4x4 = Brush" "\<not> eraseChanged loaded_4x4"
    "bm loaded_4x4 = ?Z" "history loaded_4x4 = [?Z]" "historyIndex loaded_4x4 = 0"
    unfolding loaded_4x4_eq by (simp_all add: new_ForgeCanvas_def)
  have down: "drawingCanvas_pointerdown test_browser pointer_event canvas_rect loaded_4x4
      = Some (Ok s1)"
    unfolding s1_def loaded_4x4_eq
    by (simp add: drawingCanvas_pointerdown_def handleDraw_def has_img_def pointer_event_def
        canvas_rect_def new_ForgeCanvas_def getImageData_def canvas_width_def canvas_height_def
        resize_canvas_def putImageData_def put_bitmap_def put_row_def stroke_path_def
        test_browser_def test_stroke_def has_segment_def default_context_def jsub_def Let_def)
  have move: "pointer_moves test_browser [(move_event, canvas_rect)] (state_of (Ok s1)) = Some s2"
    unfolding s2_def s1_def loaded_4x4_eq
    by (simp add: drawingCanvas_pointermove_def handleDraw_def move_event_def
        canvas_rect_def new_ForgeCanvas_def putImageData_def put_bitmap_def put_row_def
        stroke_path_def test_browser_def test_stroke_def has_segment_def vertex_in_def
        default_context_def jsub_def upt_0_4 Let_def)
  note t = brush_gesture_takes_no_snapshot [OF start(1,2) down move]
  have up: "drawingCanvas_pointerup test_browser s2 = Ok s3"
    unfolding s3_def s2_def s1_def loaded_4x4_eq
    by (simp add: drawingCanvas_pointerup_def new_ForgeCanvas_def Let_def)
  have painted: "bm s3 = ?P" unfolding s3_def s2_def by simp
  from t have kept: "history s3 = [?Z]" "historyIndex s3 = 0"
    "foregroundGradioBind s3 = foregroundGradioBind loaded_4x4"
    unfolding up start by simp_all
  define e1 where "e1 = s3
      \<lparr>currentTool := Eraser, drawing := True,
       tempDrawPoints := [(Fin (2 / 19), Fin (2 / 19))], tempDrawBackground := Some ?P,
       lastErasePoint := Some (Fin (2 / 19), Fin (2 / 19)), eraseChanged := True,
       drawingCanvas := \<lparr>bitmap = ?Z,
         ctx = ?k\<lparr>fillStyle := Color ''rgba(0,0,0,1)'',
           globalCompositeOperation := DestinationOut\<rparr>\<rparr>\<rparr>"
  have edown: "drawingCanvas_pointerdown test_browser pointer_event canvas_rect
      (s3\<lparr>currentTool := Eraser\<rparr>) = Some (Ok e1)"
    unfolding e1_def s3_def s2_def s1_def loaded_4x4_eq
    by (simp add: drawingCanvas_pointerdown_def handleErase_def dab_def has_img_def
        pointer_event_def canvas_rect_def new_ForgeCanvas_def getImageData_def canvas_width_def
        canvas_height_def test_browser_def default_context_def jsub_def Let_def)
  have eup: "\<exists>e2. drawingCanvas_pointerup test_browser e1 = Ok e2
      \<and> history e2 = [?Z, ?Z] \<and> historyIndex e2 = 1"
    unfolding e1_def s3_def s2_def s1_def loaded_4x4_eq
    by (simp add: drawingCanvas_pointerup_def test_browser_def history_eval)
  then obtain e2 where e2: "drawingCanvas_pointerup test_browser e1 = Ok e2"
    "history e2 = [?Z, ?Z]" "historyIndex e2 = 1" by blast
  have eraser: "\<exists>e1 e2. drawingCanvas_pointerdown test_browser pointer_event canvas_rect
        (s3\<lparr>currentTool := Eraser\<rparr>) = Some (Ok e1)
      \<and> drawingCanvas_pointerup test_browser e1 = Ok e2
      \<and> history e2 = [?Z, ?Z] \<and> historyIndex e2 = 1"
    using edown e2 by blast
  have gesture: "\<exists>d s2 s3.
      drawingCanvas_pointerdown test_browser pointer_event canvas_rect loaded_4x4 = Some d
      \<and> pointer_moves test_browser [(move_event, canvas_rect)] (state_of d) = Some s2
      \<and> drawingCanvas_pointerup test_browser s2 = Ok s3
      \<and> bm s3 = ?P \<and> history s3 = [?Z] \<and> historyIndex s3 = 0
      \<and> foregroundGradioBind s3 = foregroundGradioBind loaded_4x4
      \<and> (\<exists>e1 e2. drawingCanvas_pointerdown test_browser pointer_event canvas_rect
              (s3\<lparr>currentTool := Eraser\<rparr>) = Some (Ok e1)
            \<and> drawingCanvas_pointerup test_browser e1 = Ok e2
            \<and> history e2 = [?Z, ?Z] \<and> historyIndex e2 = 1)"
    apply (rule exI [of _ "Ok s1"], rule exI [of _ s2], rule exI [of _ s3])
    apply (intro conjI)
           apply (rule down)
          apply (rule move)
         apply (rule up)
        apply (rule painted)
       apply (rule kept(1))
      apply (rule kept(2))
     apply (rule kept(3))
    apply (rule eraser)
    done
  show ?thesis
    apply (intro conjI)
         apply (rule start(1))
        apply (rule start(2))
       apply (rule start(3))
      apply (rule start(4))
     apply (rule start(5))
    apply (rule gesture)
    done
qed

lemma adjust_positive:
  assumes "0 < originalWidth s" "0 < originalHeight s"
  shows "imgScale (adjustInitialPositionAndScale s)
           = Fin (min ((real (clientWidth s) - 20) / real (originalWidth s))
                      ((real (clientHeight s) - 20) / real (originalHeight s)))"
    and "imgX (adjustInitialPositionAndScale s)
           = Fin ((real (clientWidth s) - real (originalWidth s)
                    * min ((real (clientWidth s) - 20) / real (originalWidth s))
                          ((real (clientHeight s) - 20) / real (originalHeight s))) / 2)"
    and "imgY (adjustInitialPositionAndScale s)
           = Fin ((real (clientHeight s) - real (originalHeight s)
                    * min ((real (clientWidth s) - 20) / real (originalWidth s))
                          ((real (clientHeight s) - 20) / real (originalHeight s))) / 2)"
  using assms
  by (simp_all add: adjustInitialPositionAndScale_def jsub_def Let_def min_def)

lemma saveState_view:
  "imgScale (state_of (saveState B s)) = imgScale s"
  "imgX (state_of (saveState B s)) = imgX s"
  "imgY (state_of (saveState B s)) = imgY s"
  by (simp_all add: saveState_def onDrawingCanvasUpload_def Let_def split: option.splits)

lemma onImageUpload_view:
  "imgScale (onImageUpload B s) = imgScale s"
  "imgX (onImageUpload B s) = imgX s"
  "imgY (onImageUpload B s) = imgY s"
  by (simp_all add: onImageUpload_def split: option.splits)

lemma onload_view:
  "imgScale (state_of (uploadBase64_onload B d w h s))
     = imgScale (adjustInitialPositionAndScale (s\<lparr>originalWidth := w, originalHeight := h\<rparr>))"
  "imgX (state_of (uploadBase64_onload B d w h s))
     = imgX (adjustInitialPositionAndScale (s\<lparr>originalWidth := w, originalHeight := h\<rparr>))"
  "imgY (state_of (uploadBase64_onload B d w h s))
     = imgY (adjustInitialPositionAndScale (s\<lparr>originalWidth := w, originalHeight := h\<rparr>))"
  by (simp_all add: uploadBase64_onload_def Let_def saveState_view onImageUpload_view
      adjustInitialPositionAndScale_def)

text \<open>
  Claim C2, as the code has it. The fit subtracts \<open>20\<close> from each side of the
  container once (a margin of \<open>10\<close> on either side, not of \<open>20\<close>): for an image of
  positive size, \<open>adjustInitialPositionAndScale\<close> (called on container resize and by
  the centre button) and a completed load both set the scale to
  \<open>min ((containerW - 20) / imageW) ((containerH - 20) / imageH)\<close> and the offsets to
  \<open>(containerW - imageW * scale) / 2\<close> and \<open>(containerH - imageH * scale) / 2\<close>.
\<close>

theorem fit_total_margin_20:
  assumes "0 < w" "0 < h"
  shows "(let scale = min ((real (clientWidth s) - 20) / real w)
                          ((real (clientHeight s) - 20) / real h);
              fitted = (Fin ((real (clientWidth s) - real w * scale) / 2),
                        Fin ((real (clientHeight s) - real h * scale) / 2), Fin scale)
          in (originalWidth s = w \<and> originalHeight s = h
                \<longrightarrow> viewState (adjustInitialPositionAndScale s) = fitted)
             \<and> viewState (state_of (uploadBase64_onload B d w h s)) = fitted)"
proof -
  let ?s = "s\<lparr>originalWidth := w, originalHeight := h\<rparr>"
  have "0 < originalWidth ?s" "0 < originalHeight ?s" using assms by simp_all
  note loaded = adjust_positive [OF this]
  have direct: "viewState (adjustInitialPositionAndScale s)
      = (Fin ((real (clientWidth s) - real w
                * min ((real (clientWidth s) - 20) / real w)
                      ((real (clientHeight s) - 20) / real h)) / 2),
         Fin ((real (clientHeight s) - real h
                * min ((real (clientWidth s) - 20) / real w)
                      ((real (clientHeight s) - 20) / real h)) / 2),
         Fin (min ((real (clientWidth s) - 20) / real w)
                  ((real (clientHeight s) - 20) / real h)))"
    if "originalWidth s = w" "originalHeight s = h"
    using assms that adjust_positive [of s] by (simp add: viewState_def)
  show ?thesis
    unfolding Let_def using direct loaded by (simp add: viewState_def onload_view)
qed

theorem fit_total_margin_20_witness:
  "(0::nat) < 200 \<and> (0::nat) < 100
   \<and> viewState (state_of (uploadBase64_onload test_browser ''data:image/png;base64,AAAA'' 200 100
        (new_ForgeCanvas test_browser (Some \<lparr>version = ''4.40.0''\<rparr>) 400 400 [] [])))
       = (Fin 10, Fin 105, Fin 1.9)"
proof -
  let ?s = "new_ForgeCanvas test_browser (Some \<lparr>version = ''4.40.0''\<rparr>) 400 400 [] []"
  have c: "clientWidth ?s = 400" "clientHeight ?s = 400" by (simp_all add: new_ForgeCanvas_def)
  have p: "(0::nat) < 200" "(0::nat) < 100" by simp_all
  from fit_total_margin_20 [OF p, of ?s test_browser "''data:image/png;base64,AAAA''"]
  show ?thesis unfolding c Let_def by simp
qed

text \<open>
  The claim as the specification states it fails at its own example: a 200 by 100
  image loaded into a 400 by 400 container gets scale \<open>1.9\<close> and offset \<open>(10, 105)\<close>, not
  scale \<open>1.8\<close> and offset \<open>(20, 110)\<close>.
\<close>

theorem fit_margin_counterexample:
  "viewState (state_of (uploadBase64_onload test_browser ''data:image/png;base64,AAAA'' 200 100
      (new_ForgeCanvas test_browser (Some \<lparr>version = ''4.40.0''\<rparr>) 400 400 [] [])))
     \<noteq> (Fin 20, Fin 110, Fin 1.8)"
  by (simp add: viewState_def onload_view adjustInitialPositionAndScale_def new_ForgeCanvas_def
      jsub_def Let_def)

text \<open>
  Claim C3 on the code. When the host writes a new value into the foreground or the
  background field of the loaded widget, the observer notices the change, takes the
  guard and throws a ReferenceError at the call of \<open>callback\<close>: the function given to
  \<open>listen\<close> is not run, so the overlay, the image and the history stay as they were,
  and the guard is never released, so every later \<open>setValue\<close> on that channel is
  dropped. What the registered function would have done with the same value is a
  decode that, once complete, replaces the overlay and appends a snapshot.
\<close>

theorem external_change_not_delivered:
  "target_value (foregroundGradioBind loaded_state) \<noteq> ''data:image/png;base64,BBBB''
   \<and> foreground_field_changed ''data:image/png;base64,BBBB'' loaded_state
       = Threw ReferenceError
           (loaded_state\<lparr>foregroundGradioBind := (foregroundGradioBind loaded_state)
              \<lparr>target_value := ''data:image/png;base64,BBBB'',
               previousValue := ''data:image/png;base64,BBBB'', syncLock := True\<rparr>\<rparr>)
   \<and> background_field_changed ''data:image/png;base64,BBBB'' loaded_state
       = Threw ReferenceError
           (loaded_state\<lparr>backgroundGradioBind := (backgroundGradioBind loaded_state)
              \<lparr>target_value := ''data:image/png;base64,BBBB'',
               previousValue := ''data:image/png;base64,BBBB'', syncLock := True\<rparr>\<rparr>)
   \<and> history (state_of (foreground_field_changed ''data:image/png;base64,BBBB'' loaded_state))
       = [[[0]]]
   \<and> bm (state_of (foreground_field_changed ''data:image/png;base64,BBBB'' loaded_state)) = [[0]]
   \<and> setValue ''data:,''
         (foregroundGradioBind
            (state_of (foreground_field_changed ''data:image/png;base64,BBBB'' loaded_state)))
       = foregroundGradioBind
            (state_of (foreground_field_changed ''data:image/png;base64,BBBB'' loaded_state))
   \<and> uploadBase64DrawingCanvas test_browser ''data:image/png;base64,BBBB'' loaded_state
       = (Ok loaded_state, Some ''data:image/png;base64,BBBB'')
   \<and> history (state_of (uploadBase64DrawingCanvas_onload test_browser
         ''data:image/png;base64,BBBB'' loaded_state)) = [[[0]], [[7]]]
   \<and> bm (state_of (uploadBase64DrawingCanvas_onload test_browser
         ''data:image/png;base64,BBBB'' loaded_state)) = [[7]]"
  unfolding loaded_state_eq
  by (simp add: foreground_field_changed_def background_field_changed_def observer_callback_def
      uploadBase64DrawingCanvas_def uploadBase64DrawingCanvas_onload_def clearRect_def
      test_browser_def history_eval)

theorem external_change_not_delivered_witness:
  "syncLock (foregroundGradioBind
      (state_of (foreground_field_changed ''data:image/png;base64,BBBB'' loaded_state)))
   \<and> syncLock (backgroundGradioBind
      (state_of (background_field_changed ''data:image/png;base64,BBBB'' loaded_state)))
   \<and> history (state_of (foreground_field_changed ''data:image/png;base64,BBBB'' loaded_state))
       \<noteq> history (state_of (uploadBase64DrawingCanvas_onload test_browser
             ''data:image/png;base64,BBBB'' loaded_state))"
proof -
  note t = external_change_not_delivered
  have f: "foreground_field_changed ''data:image/png;base64,BBBB'' loaded_state
       = Threw ReferenceError
           (loaded_state\<lparr>foregroundGradioBind := (foregroundGradioBind loaded_state)
              \<lparr>target_value := ''data:image/png;base64,BBBB'',
               previousValue := ''data:image/png;base64,BBBB'', syncLock := True\<rparr>\<rparr>)"
    using t by blast
  have b: "background_field_changed ''data:image/png;base64,BBBB'' loaded_state
       = Threw ReferenceError
           (loaded_state\<lparr>backgroundGradioBind := (backgroundGradioBind loaded_state)
              \<lparr>target_value := ''data:image/png;base64,BBBB'',
               previousValue := ''data:image/png;base64,BBBB'', syncLock := True\<rparr>\<rparr>)"
    using t by blast
  have h: "history (state_of (foreground_field_changed ''data:image/png;base64,BBBB'' loaded_state))
       = [[[0]]]"
    using t by blast
  have u: "history (state_of (uploadBase64DrawingCanvas_onload test_browser
         ''data:image/png;base64,BBBB'' loaded_state)) = [[[0]], [[7]]]"
    using t by blast
  have "syncLock (foregroundGradioBind
      (state_of (foreground_field_changed ''data:image/png;base64,BBBB'' loaded_state)))"
    unfolding f by simp
  moreover have "syncLock (backgroundGradioBind
      (state_of (background_field_changed ''data:image/png;base64,BBBB'' loaded_state)))"
    unfolding b by simp
  moreover have "history (state_of (foreground_field_changed ''data:image/png;base64,BBBB'' loaded_state))
       \<noteq> history (state_of (uploadBase64DrawingCanvas_onload test_browser
             ''data:image/png;base64,BBBB'' loaded_state))"
    unfolding h u by simp
  ultimately show ?thesis by blast
qed


lemma put_bitmap_Nil: "put_bitmap [] dst = dst"
  by (simp add: put_bitmap_def)

lemma put_bitmap_Cons_Nil: "put_bitmap (r # rs) [] = []"
  by (simp add: put_bitmap_def)

lemma put_bitmap_Cons: "put_bitmap (r # rs) (d # ds) = put_row r d # put_bitmap rs ds"
  by (simp add: put_bitmap_def)

lemma length_put_row: "length (put_row src dst) = length dst"
  by (simp add: put_row_def)

lemma shape_put_bitmap: "map length (put_bitmap src dst) = map length dst"
proof (induction src arbitrary: dst)
  case Nil
  show ?case by (simp add: put_bitmap_Nil)
next
  case (Cons r rs)
  show ?case
    by (cases dst) (simp_all add: put_bitmap_Cons_Nil put_bitmap_Cons length_put_row Cons.IH)
qed

lemma put_bitmap_same: "map length src = map length dst \<Longrightarrow> put_bitmap src dst = src"
proof (induction src arbitrary: dst)
  case Nil
  then show ?case by (simp add: put_bitmap_Nil)
next
  case (Cons r rs)
  then obtain d ds where dst: "dst = d # ds" by (cases dst) auto
  with Cons.prems have "length r = length d" "map length rs = map length ds" by simp_all
  then show ?case
    by (simp add: dst put_bitmap_Cons put_row_def Cons.IH)
qed

lemma onDrawingCanvasUpload_frame:
  "history (onDrawingCanvasUpload B s) = history s"
  "historyIndex (onDrawingCanvasUpload B s) = historyIndex s"
  "drawingCanvas (onDrawingCanvasUpload B s) = drawingCanvas s"
  by (simp_all add: onDrawingCanvasUpload_def)

lemma restoreState_Ok:
  assumes "0 \<le> historyIndex s" "historyIndex s < int (length (history s))"
  shows "\<exists>s'. restoreState B s = Ok s' \<and> history s' = history s
           \<and> historyIndex s' = historyIndex s
           \<and> bm s' = put_bitmap (history s ! nat (historyIndex s)) (bm s)"
  using assms by (simp add: restoreState_def onDrawingCanvasUpload_frame putImageData_def)

lemma undo_noop: "historyIndex s \<le> 0 \<Longrightarrow> undo B s = Ok s"
  by (simp add: undo_def)

lemma redo_noop: "int (length (history s)) - 1 \<le> historyIndex s \<Longrightarrow> redo B s = Ok s"
  by (simp add: redo_def)

lemma undo_step:
  assumes "0 < historyIndex s" "historyIndex s < int (length (history s))"
  shows "\<exists>s'. undo B s = Ok s' \<and> history s' = history s
           \<and> historyIndex s' = historyIndex s - 1
           \<and> bm s' = put_bitmap (history s ! nat (historyIndex s - 1)) (bm s)"
  using assms restoreState_Ok [of "s\<lparr>historyIndex := historyIndex s - 1\<rparr>" B]
  by (simp add: undo_def)

lemma redo_step:
  assumes "historyIndex s < int (length (history s)) - 1" "- 1 \<le> historyIndex s"
  shows "\<exists>s'. redo B s = Ok s' \<and> history s' = history s
           \<and> historyIndex s' = historyIndex s + 1
           \<and> bm s' = put_bitmap (history s ! nat (historyIndex s + 1)) (bm s)"
  using assms restoreState_Ok [of "s\<lparr>historyIndex := historyIndex s + 1\<rparr>" B]
  by (simp add: redo_def)

lemma saveState_Ok:
  assumes "savable (bm s)"
  shows "\<exists>s'. saveState B s = Ok s'
           \<and> history s' = js_slice0 (history s) (historyIndex s + 1) @ [bm s]
           \<and> historyIndex s' = historyIndex s + 1 \<and> bm s' = bm s"
  using assms
  by (auto simp: saveState_def getImageData_def canvas_width_def canvas_height_def savable_def
      onDrawingCanvasUpload_frame Let_def split: list.splits)

lemma saveState_Threw:
  assumes "\<not> savable (bm s)"
  shows "saveState B s = Threw IndexSizeError s"
  using assms
  by (auto simp: saveState_def getImageData_def canvas_width_def canvas_height_def savable_def
      split: list.splits)


lemma run_ops_append: "run_ops B (xs @ ys) s = run_ops B ys (run_ops B xs s)"
  by (induction xs arbitrary: s) simp_all

lemma undo_many:
  assumes "hist_inv s"
  shows "history (run_ops B (replicate k Undo) s) = history s
       \<and> historyIndex (run_ops B (replicate k Undo) s)
           = (if historyIndex s \<le> 0 then historyIndex s else max 0 (historyIndex s - int k))
       \<and> map length (bm (run_ops B (replicate k Undo) s)) = map length (bm s)
       \<and> (historyIndex (run_ops B (replicate k Undo) s) = historyIndex s
            \<longrightarrow> bm (run_ops B (replicate k Undo) s) = bm s)"
  using assms
proof (induction k arbitrary: s)
  case 0
  then show ?case by simp
next
  case (Suc k)
  show ?case
  proof (cases "0 < historyIndex s")
    case False
    then have u: "undo B s = Ok s" by (simp add: undo_noop)
    from False Suc.IH [OF Suc.prems] show ?thesis by (simp add: u)
  next
    case True
    with Suc.prems have lt: "historyIndex s < int (length (history s))"
      by (auto simp: hist_inv_def split: if_splits)
    from undo_step [OF True lt, of B] obtain s1 where
      s1: "undo B s = Ok s1" "history s1 = history s" "historyIndex s1 = historyIndex s - 1"
          "bm s1 = put_bitmap (history s ! nat (historyIndex s - 1)) (bm s)"
      by blast
    have inv1: "hist_inv s1"
      using True lt s1 by (auto simp: hist_inv_def)
    from Suc.IH [OF inv1] s1 True show ?thesis
      by (auto simp: shape_put_bitmap)
  qed
qed

lemma redo_many:
  assumes "hist_inv s"
  shows "history (run_ops B (replicate k Redo) s) = history s
       \<and> historyIndex (run_ops B (replicate k Redo) s)
           = min (int (length (history s)) - 1) (historyIndex s + int k)
       \<and> map length (bm (run_ops B (replicate k Redo) s)) = map length (bm s)
       \<and> (historyIndex (run_ops B (replicate k Redo) s) = historyIndex s
            \<longrightarrow> bm (run_ops B (replicate k Redo) s) = bm s)
       \<and> (historyIndex s < historyIndex (run_ops B (replicate k Redo) s)
            \<longrightarrow> map length (history s ! nat (historyIndex (run_ops B (replicate k Redo) s)))
                  = map length (bm s)
            \<longrightarrow> bm (run_ops B (replicate k Redo) s)
                  = history s ! nat (historyIndex (run_ops B (replicate k Redo) s)))"
  using assms
proof (induction k arbitrary: s)
  case 0
  then show ?case by (auto simp: hist_inv_def split: if_splits)
next
  case (Suc k)
  from Suc.prems have lo: "- 1 \<le> historyIndex s" and hi: "historyIndex s \<le> int (length (history s)) - 1"
    by (auto simp: hist_inv_def split: if_splits)
  show ?case
  proof (cases "historyIndex s < int (length (history s)) - 1")
    case False
    then have u: "redo B s = Ok s" by (simp add: redo_noop)
    from False hi Suc.IH [OF Suc.prems] show ?thesis by (simp add: u)
  next
    case True
    from redo_step [OF True lo, of B] obtain s1 where
      s1: "redo B s = Ok s1" "history s1 = history s" "historyIndex s1 = historyIndex s + 1"
          "bm s1 = put_bitmap (history s ! nat (historyIndex s + 1)) (bm s)"
      by blast
    have inv1: "hist_inv s1"
      using True lo s1 by (auto simp: hist_inv_def)
    have sh1: "map length (bm s1) = map length (bm s)"
      by (simp add: s1 shape_put_bitmap)
    let ?r = "run_ops B (replicate k Redo) s1"
    have r: "run_ops B (replicate (Suc k) Redo) s = ?r" by (simp add: s1)
    note ih = Suc.IH [OF inv1]
    have a: "history ?r = history s" using ih s1 by simp
    have b: "historyIndex ?r = min (int (length (history s)) - 1) (historyIndex s + int (Suc k))"
      using ih s1 by simp
    have c: "map length (bm ?r) = map length (bm s)" using ih sh1 by simp
    have d: "historyIndex ?r \<noteq> historyIndex s" using b True by simp
    have e: "bm ?r = history s ! nat (historyIndex ?r)"
      if sh: "map length (history s ! nat (historyIndex ?r)) = map length (bm s)"
    proof (cases "historyIndex ?r = historyIndex s1")
      case True
      with ih have "bm ?r = bm s1" by simp
      also have "\<dots> = history s ! nat (historyIndex s + 1)"
        using sh True s1 by (simp add: put_bitmap_same)
      finally show ?thesis using True s1 by simp
    next
      case False
      moreover have "historyIndex ?r = min (int (length (history s)) - 1) (historyIndex s1 + int k)"
        using ih s1 by simp
      moreover have "historyIndex s1 \<le> int (length (history s)) - 1"
        using True s1 by simp
      ultimately have "historyIndex s1 < historyIndex ?r" by linarith
      with ih sh sh1 s1 show ?thesis by simp
    qed
    show ?thesis unfolding r using a b c d e by blast
  qed
qed


lemma hist_inv_run_op:
  assumes "hist_inv s"
  shows "hist_inv (state_of (run_op B x s))"
proof (cases x)
  case (Snapshot p)
  let ?s = "s\<lparr>drawingCanvas := (drawingCanvas s)\<lparr>bitmap := p\<rparr>\<rparr>"
  have inv: "hist_inv ?s" using assms by (simp add: hist_inv_def)
  show ?thesis
  proof (cases "savable p")
    case True
    then have "savable (bm ?s)" by simp
    from saveState_Ok [OF this, of B] obtain s' where
      s': "saveState B ?s = Ok s'"
          "history s' = js_slice0 (history ?s) (historyIndex ?s + 1) @ [bm ?s]"
          "historyIndex s' = historyIndex ?s + 1"
      by blast
    from inv have "- 1 \<le> historyIndex ?s" "historyIndex ?s + 1 \<le> int (length (history ?s))"
      by (auto simp: hist_inv_def split: if_splits)
    then have "hist_inv s'"
      using s' by (auto simp: hist_inv_def js_slice0_def)
    then show ?thesis by (simp add: Snapshot s')
  next
    case False
    then have "\<not> savable (bm ?s)" by simp
    from saveState_Threw [OF this, of B] inv show ?thesis by (simp add: Snapshot)
  qed
next
  case Undo
  show ?thesis
  proof (cases "0 < historyIndex s")
    case True
    with assms have lt: "historyIndex s < int (length (history s))"
      by (auto simp: hist_inv_def split: if_splits)
    from undo_step [OF True lt, of B] True lt show ?thesis
      by (auto simp: Undo hist_inv_def)
  next
    case False
    with assms show ?thesis by (simp add: Undo undo_noop)
  qed
next
  case Redo
  show ?thesis
  proof (cases "historyIndex s < int (length (history s)) - 1")
    case True
    from assms have lo: "- 1 \<le> historyIndex s"
      by (auto simp: hist_inv_def split: if_splits)
    from redo_step [OF True lo, of B] True lo show ?thesis
      by (auto simp: Redo hist_inv_def)
  next
    case False
    with assms show ?thesis by (simp add: Redo redo_noop)
  qed
qed

lemma hist_inv_run_ops: "hist_inv s \<Longrightarrow> hist_inv (run_ops B xs s)"
  by (induction xs arbitrary: s) (simp_all add: hist_inv_run_op)

lemma at_tip_snapshots:
  assumes "at_tip s" "\<forall>p\<in>set ps. savable p"
  shows "at_tip (run_ops B (map Snapshot ps) s)"
  using assms
proof (induction ps arbitrary: s)
  case Nil
  then show ?case by simp
next
  case (Cons p ps)
  let ?s = "s\<lparr>drawingCanvas := (drawingCanvas s)\<lparr>bitmap := p\<rparr>\<rparr>"
  from Cons.prems have "savable (bm ?s)" by simp
  from saveState_Ok [OF this, of B] obtain s' where
    s': "saveState B ?s = Ok s'"
        "history s' = js_slice0 (history ?s) (historyIndex ?s + 1) @ [bm ?s]"
        "historyIndex s' = historyIndex ?s + 1" "bm s' = bm ?s"
    by blast
  from Cons.prems(1) have "at_tip s'"
    using s' by (simp add: at_tip_def js_slice0_def)
  from Cons.IH [OF this] Cons.prems(2) show ?case by (simp add: s')
qed

lemma undo_redo_at_tip:
  assumes tip: "at_tip s"
  shows "bm (run_ops B (replicate k Undo @ replicate k Redo) s) = bm s
       \<and> history (run_ops B (replicate k Undo @ replicate k Redo) s) = history s
       \<and> historyIndex (run_ops B (replicate k Undo @ replicate k Redo) s) = historyIndex s"
proof -
  let ?u = "run_ops B (replicate k Undo) s"
  let ?r = "run_ops B (replicate k Redo) ?u"
  from tip have inv: "hist_inv s" by (auto simp: at_tip_def hist_inv_def)
  note u = undo_many [OF inv, of B k]
  have invu: "hist_inv ?u" using inv by (rule hist_inv_run_ops)
  note r = redo_many [OF invu, of B k]
  from tip have top: "historyIndex s = int (length (history s)) - 1" by (simp add: at_tip_def)
  have hr: "history ?r = history s" using u r by simp
  have ir: "historyIndex ?r = historyIndex s" using u r top by (auto simp: min_def max_def)
  have br: "bm ?r = bm s"
  proof (cases "historyIndex ?u = historyIndex s")
    case True
    with u r ir show ?thesis by simp
  next
    case False
    with u have lt: "historyIndex ?u < historyIndex ?r" unfolding ir
      by (auto simp: max_def split: if_splits)
    from False u have "0 < historyIndex s" by (auto split: if_splits)
    with top have ne: "history s \<noteq> []" by auto
    then have "nat (int (length (history s)) - 1) = length (history s) - 1"
      by (cases "history s") simp_all
    with ne tip top have "history s ! nat (historyIndex s) = bm s"
      by (simp add: at_tip_def last_conv_nth)
    with u r lt ir show ?thesis by simp
  qed
  show ?thesis using hr ir br by (simp add: run_ops_append)
qed

text \<open>
  Claim C4. History is linear. From the state the constructor leaves (no entry, index
  \<open>-1\<close>): after any number of snapshots, \<open>k\<close> undos followed by \<open>k\<close> redos give back
  the overlay bitmap, the history and the index; in every reachable state, editing
  the overlay and taking a snapshot keeps the entries up to the current index, appends
  the new bitmap as the last entry and makes the next redo do nothing; undo at index
  \<open>0\<close> and redo at the last index do nothing; and the index lies within the history
  whenever the history is not empty.
\<close>

theorem history_linear:
  assumes fresh: "history s0 = []" "historyIndex s0 = - 1"
  shows "((\<forall>p\<in>set ps. savable p) \<longrightarrow>
            bm (run_ops B (map Snapshot ps @ replicate k Undo @ replicate k Redo) s0)
              = bm (run_ops B (map Snapshot ps) s0)
          \<and> history (run_ops B (map Snapshot ps @ replicate k Undo @ replicate k Redo) s0)
              = history (run_ops B (map Snapshot ps) s0)
          \<and> historyIndex (run_ops B (map Snapshot ps @ replicate k Undo @ replicate k Redo) s0)
              = historyIndex (run_ops B (map Snapshot ps) s0))
       \<and> (savable p \<longrightarrow>
            (\<exists>s'. run_op B (Snapshot p) (run_ops B xs s0) = Ok s'
               \<and> history s' = take (nat (historyIndex (run_ops B xs s0) + 1))
                                 (history (run_ops B xs s0)) @ [p]
               \<and> historyIndex s' = historyIndex (run_ops B xs s0) + 1
               \<and> historyIndex s' = int (length (history s')) - 1
               \<and> redo B s' = Ok s'))
       \<and> (historyIndex (run_ops B xs s0) = 0 \<longrightarrow> undo B (run_ops B xs s0) = Ok (run_ops B xs s0))
       \<and> (historyIndex (run_ops B xs s0) = int (length (history (run_ops B xs s0))) - 1
            \<longrightarrow> redo B (run_ops B xs s0) = Ok (run_ops B xs s0))
       \<and> (history (run_ops B xs s0) \<noteq> [] \<longrightarrow>
            0 \<le> historyIndex (run_ops B xs s0)
            \<and> historyIndex (run_ops B xs s0) < int (length (history (run_ops B xs s0))))"
proof -
  from fresh have tip0: "at_tip s0" by (simp add: at_tip_def)
  from fresh have inv0: "hist_inv s0" by (simp add: hist_inv_def)
  let ?s = "run_ops B xs s0"
  have inv: "hist_inv ?s" using inv0 by (rule hist_inv_run_ops)
  have a: "bm (run_ops B (map Snapshot ps @ replicate k Undo @ replicate k Redo) s0)
             = bm (run_ops B (map Snapshot ps) s0)
         \<and> history (run_ops B (map Snapshot ps @ replicate k Undo @ replicate k Redo) s0)
             = history (run_ops B (map Snapshot ps) s0)
         \<and> historyIndex (run_ops B (map Snapshot ps @ replicate k Undo @ replicate k Redo) s0)
             = historyIndex (run_ops B (map Snapshot ps) s0)"
    if "\<forall>p\<in>set ps. savable p"
    using undo_redo_at_tip [OF at_tip_snapshots [OF tip0 that], of B k]
    by (simp add: run_ops_append)
  have b: "\<exists>s'. run_op B (Snapshot p) ?s = Ok s'
             \<and> history s' = take (nat (historyIndex ?s + 1)) (history ?s) @ [p]
             \<and> historyIndex s' = historyIndex ?s + 1
             \<and> historyIndex s' = int (length (history s')) - 1
             \<and> redo B s' = Ok s'"
    if sv: "savable p"
  proof -
    let ?e = "?s\<lparr>drawingCanvas := (drawingCanvas ?s)\<lparr>bitmap := p\<rparr>\<rparr>"
    from sv have "savable (bm ?e)" by simp
    from saveState_Ok [OF this, of B] obtain s' where
      s': "saveState B ?e = Ok s'"
          "history s' = js_slice0 (history ?e) (historyIndex ?e + 1) @ [bm ?e]"
          "historyIndex s' = historyIndex ?e + 1"
      by blast
    from inv have bounds: "- 1 \<le> historyIndex ?s" "historyIndex ?s + 1 \<le> int (length (history ?s))"
      by (auto simp: hist_inv_def split: if_splits)
    then have h: "history s' = take (nat (historyIndex ?s + 1)) (history ?s) @ [p]"
      using s' by (simp add: js_slice0_def)
    have i: "historyIndex s' = historyIndex ?s + 1" using s' by simp
    have j: "historyIndex s' = int (length (history s')) - 1"
      using bounds i by (simp add: h)
    then have "redo B s' = Ok s'" by (simp add: redo_noop)
    with s'(1) h i j show ?thesis by auto
  qed
  have c: "undo B ?s = Ok ?s" if "historyIndex ?s = 0"
    using that by (simp add: undo_noop)
  have d: "redo B ?s = Ok ?s" if "historyIndex ?s = int (length (history ?s)) - 1"
    using that by (simp add: redo_noop)
  have e: "0 \<le> historyIndex ?s \<and> historyIndex ?s < int (length (history ?s))"
    if "history ?s \<noteq> []"
    using inv that by (simp add: hist_inv_def)
  show ?thesis using a b c d e by blast
qed

theorem history_linear_witness:
  "history (new_ForgeCanvas test_browser None 400 400 [] []) = []
   \<and> historyIndex (new_ForgeCanvas test_browser None 400 400 [] []) = - 1
   \<and> savable [[1]] \<and> savable [[2]] \<and> savable [[3]]
   \<and> bm (run_ops test_browser
            (map Snapshot [[[1]], [[2]], [[3]]] @ replicate 2 Undo @ replicate 2 Redo)
            (new_ForgeCanvas test_browser None 400 400 [] [])) = [[3]]
   \<and> historyIndex (run_ops test_browser
            (map Snapshot [[[1]], [[2]], [[3]]] @ replicate 2 Undo @ replicate 2 Redo)
            (new_ForgeCanvas test_browser None 400 400 [] [])) = 2
   \<and> savable [[4]]
   \<and> historyIndex (run_ops test_browser [Snapshot [[1]], Snapshot [[2]], Snapshot [[3]], Undo]
            (new_ForgeCanvas test_browser None 400 400 [] [])) = 1
   \<and> (\<exists>s'. run_op test_browser (Snapshot [[4]])
               (run_ops test_browser [Snapshot [[1]], Snapshot [[2]], Snapshot [[3]], Undo]
                  (new_ForgeCanvas test_browser None 400 400 [] [])) = Ok s'
          \<and> history s' = [[[1]], [[2]], [[4]]] \<and> historyIndex s' = 2
          \<and> redo test_browser s' = Ok s')"
proof -
  let ?s0 = "new_ForgeCanvas test_browser None 400 400 [] []"
  let ?ps = "[[[1]], [[2]], [[3]]] :: ImageData list"
  let ?xs = "[Snapshot [[1]], Snapshot [[2]], Snapshot [[3]], Undo]"
  have fresh: "history ?s0 = []" "historyIndex ?s0 = - 1"
    by (simp_all add: new_ForgeCanvas_def)
  have sv: "\<forall>p\<in>set ?ps. savable p" "savable [[4]]"
    by (simp_all add: savable_def)
  have snaps: "bm (run_ops test_browser (map Snapshot ?ps) ?s0) = [[3]]"
              "historyIndex (run_ops test_browser (map Snapshot ?ps) ?s0) = 2"
    by (simp_all add: history_eval)
  have at: "historyIndex (run_ops test_browser ?xs ?s0) = 1"
           "history (run_ops test_browser ?xs ?s0) = [[[1]], [[2]], [[3]]]"
    by (simp_all add: history_eval)
  note h = history_linear [OF fresh, of ?ps test_browser 2 "[[4]]" ?xs]
  from h sv snaps have rt:
    "bm (run_ops test_browser (map Snapshot ?ps @ replicate 2 Undo @ replicate 2 Redo) ?s0) = [[3]]"
    "historyIndex (run_ops test_browser (map Snapshot ?ps @ replicate 2 Undo @ replicate 2 Redo) ?s0) = 2"
    by simp_all
  from h sv(2) obtain s' where s':
    "run_op test_browser (Snapshot [[4]]) (run_ops test_browser ?xs ?s0) = Ok s'"
    "history s' = take (nat (historyIndex (run_ops test_browser ?xs ?s0) + 1))
                    (history (run_ops test_browser ?xs ?s0)) @ [[[4]]]"
    "historyIndex s' = historyIndex (run_ops test_browser ?xs ?s0) + 1"
    "redo test_browser s' = Ok s'"
    by blast
  have "history s' = [[[1]], [[2]], [[4]]]" "historyIndex s' = 2"
    unfolding s'(2,3) at by simp_all
  with s'(1,4) have ex: "\<exists>s'. run_op test_browser (Snapshot [[4]]) (run_ops test_browser ?xs ?s0) = Ok s'
          \<and> history s' = [[[1]], [[2]], [[4]]] \<and> historyIndex s' = 2
          \<and> redo test_browser s' = Ok s'"
    by blast
  have sv3: "savable [[1]]" "savable [[2]]" "savable [[3]]"
    by (simp_all add: savable_def)
  show ?thesis using fresh sv sv3 rt at(1) ex by blast
qed

text \<open>
  Claim C5. Zoom keeps the point under the cursor. With an image loaded, no control
  key, a positive finite scale and finite coordinates, a wheel event sets the scale to
  \<open>max 0.1 (scale - 0.001 * deltaY)\<close>, which is at least \<open>0.1\<close>, sets each offset to
  \<open>cursor - (cursor - offset) * (scale' / scale)\<close>, and the image-local point under the
  cursor is the same before and after (exactly, numbers being reals here; the
  clamped case included).
\<close>

theorem zoom_keeps_anchor:
  assumes "has_img s" and "\<not> ctrlKey event"
    and "imgScale s = Fin sc" and "0 < sc"
    and "imgX s = Fin x" and "imgY s = Fin y"
    and "clientX event = Fin cx" and "clientY event = Fin cy"
    and "rect_left rect = Fin l" and "rect_top rect = Fin t"
    and "deltaY event = Fin d"
  shows "(let s' = imageContainer_wheel event rect s;
              sc' = max 0.1 (sc + d * (- 0.001));
              mouseX = cx - l;
              mouseY = cy - t
          in imgScale s' = Fin sc' \<and> 0.1 \<le> sc'
             \<and> imgX s' = Fin (mouseX - (mouseX - x) * (sc' / sc))
             \<and> imgY s' = Fin (mouseY - (mouseY - y) * (sc' / sc))
             \<and> screenToImage s' (Fin mouseX, Fin mouseY)
                 = screenToImage s (Fin mouseX, Fin mouseY))"
proof -
  let ?sc' = "max 0.1 (sc + d * (- 0.001))"
  have pos: "0 < ?sc'" by simp
  have sc: "jmax (Fin 0.1) (jadd (Fin sc) (jmul (Fin d) (Fin (- 0.001)))) = Fin ?sc'"
    by (simp add: max_def)
  have nz: "sc \<noteq> 0" "?sc' \<noteq> 0" using assms(4) pos by simp_all
  have view: "imgScale (imageContainer_wheel event rect s) = Fin ?sc'"
    "imgX (imageContainer_wheel event rect s) = Fin ((cx - l) - ((cx - l) - x) * (?sc' / sc))"
    "imgY (imageContainer_wheel event rect s) = Fin ((cy - t) - ((cy - t) - y) * (?sc' / sc))"
    using assms nz sc
    by (simp_all add: imageContainer_wheel_def Let_def jsub_def del: max_less_iff_conj)
  have anchor: "(a - (a - (a - b) * (?sc' / sc))) / ?sc' = (a - b) / sc" for a b :: real
    using nz by (simp add: field_simps)
  show ?thesis
    unfolding Let_def
    using view nz assms(3,5,6)
    by (simp add: screenToImage_def jsub_def anchor)
qed

theorem zoom_keeps_anchor_witness:
  "screenToImage
     (imageContainer_wheel
        \<lparr>clientX = Fin 150, clientY = Fin 90, button = 0, ctrlKey = False, deltaY = Fin (- 100)\<rparr>
        \<lparr>rect_left = Fin 50, rect_top = Fin 40\<rparr>
        ((new_ForgeCanvas test_browser None 400 400 [] [])
           \<lparr>img := Some ''data:image/png;base64,AAAA'', imgX := Fin 20, imgY := Fin 10,
            imgScale := Fin 2\<rparr>))
     (Fin 100, Fin 50) = (Fin 40, Fin 20)
   \<and> viewState
     (imageContainer_wheel
        \<lparr>clientX = Fin 150, clientY = Fin 90, button = 0, ctrlKey = False, deltaY = Fin (- 100)\<rparr>
        \<lparr>rect_left = Fin 50, rect_top = Fin 40\<rparr>
        ((new_ForgeCanvas test_browser None 400 400 [] [])
           \<lparr>img := Some ''data:image/png;base64,AAAA'', imgX := Fin 20, imgY := Fin 10,
            imgScale := Fin 2\<rparr>)) = (Fin 16, Fin 8, Fin 2.1)"
proof -
  let ?e = "\<lparr>clientX = Fin 150, clientY = Fin 90, button = 0, ctrlKey = False,
             deltaY = Fin (- 100)\<rparr>"
  let ?r = "\<lparr>rect_left = Fin 50, rect_top = Fin 40\<rparr>"
  let ?s = "(new_ForgeCanvas test_browser None 400 400 [] [])
           \<lparr>img := Some ''data:image/png;base64,AAAA'', imgX := Fin 20, imgY := Fin 10,
            imgScale := Fin 2\<rparr>"
  have h: "has_img ?s" "\<not> ctrlKey ?e" "imgScale ?s = Fin 2" "(0::real) < 2"
    "imgX ?s = Fin 20" "imgY ?s = Fin 10" "clientX ?e = Fin 150" "clientY ?e = Fin 90"
    "rect_left ?r = Fin 50" "rect_top ?r = Fin 40" "deltaY ?e = Fin (- 100)"
    by (simp_all add: has_img_def)
  have before: "screenToImage ?s (Fin 100, Fin 50) = (Fin 40, Fin 20)"
    by (simp add: screenToImage_def jsub_def)
  from zoom_keeps_anchor [OF h] before show ?thesis
    unfolding Let_def by (simp add: viewState_def)
qed

lemma soft_passes_bitmap:
  assumes "\<forall>i\<in>set js. 0 < m + inc * real i"
  shows "bitmap (soft_passes B path (Fin m) (Fin inc) js c)
           = foldl (\<lambda>b i. stroke B ((ctx c)\<lparr>lineWidth := m + inc * real i\<rparr>) path b) (bitmap c) js"
  using assms
proof (induction js arbitrary: c)
  case Nil
  show ?case by simp
next
  case (Cons j js)
  let ?c = "stroke_path B path (c\<lparr>ctx := (ctx c)\<lparr>lineWidth := m + inc * real j\<rparr>\<rparr>)"
  from Cons.prems have pos: "0 < m + inc * real j" and rest: "\<forall>i\<in>set js. 0 < m + inc * real i"
    by simp_all
  have "bitmap (soft_passes B path (Fin m) (Fin inc) (j # js) c)
          = bitmap (soft_passes B path (Fin m) (Fin inc) js ?c)"
    using pos by simp
  also have "\<dots> = foldl (\<lambda>b i. stroke B ((ctx ?c)\<lparr>lineWidth := m + inc * real i\<rparr>) path b)
                      (bitmap ?c) js"
    by (rule Cons.IH [OF rest])
  finally show ?case by (simp add: stroke_path_def)
qed

lemma source_over_alpha_funpow:
  "(source_over_alpha a ^^ n) 0 = 1 - (1 - a) ^ n"
proof (induction n)
  case 0
  show ?case by simp
next
  case (Suc n)
  have "(source_over_alpha a ^^ Suc n) 0 = a + (1 - (1 - a) ^ n) * (1 - a)"
    by (simp add: Suc.IH source_over_alpha_def)
  also have "\<dots> = 1 - (1 - a) ^ Suc n"
    by (simp add: algebra_simps)
  finally show ?case .
qed

lemma root_power_back:
  fixes x :: real
  assumes "0 < x" "0 < n"
  shows "(x powr (1 / real n)) ^ n = x"
proof -
  have "(x powr (1 / real n)) ^ n = (x powr (1 / real n)) powr real n"
    using assms by (simp add: powr_realpow [symmetric])
  also have "\<dots> = x powr (1 / real n * real n)"
    by (simp add: powr_powr)
  also have "\<dots> = x" using assms by simp
  finally show ?thesis .
qed

lemma soft_steps:
  fixes so :: real
  assumes "0 < so"
  shows "5 \<le> \<lfloor>5 + so / 5 + 1 / 2\<rfloor>"
proof -
  have "(5::real) \<le> 5 + so / 5 + 1 / 2" using assms by simp
  then show ?thesis by linarith
qed

lemma pass_widths_positive:
  fixes m inc :: real
  assumes "0 < m" "0 \<le> inc"
  shows "\<forall>i\<in>set js. 0 < m + inc * real i"
  using assms by (simp add: add_pos_nonneg)

lemma soft_brush_call:
  fixes s :: ForgeCanvas and event :: dom_event and rect :: DOMRect and B :: browser
  assumes bg: "tempDrawBackground s = Some bg" and nm: "\<not> mask_mode s"
    and al: "scribbleAlpha s = Fin al" "0 < al"
    and so: "scribbleSoftness s = Fin so" "0 < so"
    and wd: "scribbleWidth s = Fin wd" "0 < wd"
    and sc: "imgScale s = Fin sc" "0 < sc"
  defines "n \<equiv> nat \<lfloor>5 + so / 5 + 1 / 2\<rfloor>"
    and "L \<equiv> wd / sc * 20"
    and "a \<equiv> 1 - (1 - min (al / 100) 0.95) powr (1 / real (nat \<lfloor>5 + so / 5 + 1 / 2\<rfloor>))"
  defines "minW \<equiv> L * (1 - so / 150)"
    and "inc \<equiv> (L * (1 + so / 150) - L * (1 - so / 150)) / (real n - 1)"
    and "path \<equiv> tempDrawPoints s
           @ [(jdiv (jsub (clientX event) (rect_left rect)) (imgScale s),
               jdiv (jsub (clientY event) (rect_top rect)) (imgScale s))]"
  shows "handleDraw B event rect s = Some (Ok
      ((s\<lparr>tempDrawPoints := path\<rparr>)
        \<lparr>drawingCanvas := soft_passes B path (Fin minW) (Fin inc) [0..<n]
           ((putImageData bg (drawingCanvas s))
              \<lparr>ctx := (ctx (drawingCanvas s))
                 \<lparr>lineCap := ''round'', lineJoin := ''round'', lineWidth := L,
                  strokeStyle := Color (scribbleColor s),
                  globalCompositeOperation := SourceOver, globalAlpha := a\<rparr>\<rparr>)\<rparr>))"
    and "5 \<le> n" and "0 < L" and "0 \<le> inc" and "0 \<le> a" and "a < 1"
    and "(1 - a) ^ n = 1 - min (al / 100) 0.95"
proof -
  have n5: "5 \<le> \<lfloor>5 + so / 5 + 1 / 2\<rfloor>" using so(2) by (rule soft_steps)
  then show n5': "5 \<le> n" unfolding n_def by linarith
  have rn: "real_of_int \<lfloor>5 + so / 5 + 1 / 2\<rfloor> = real n"
    unfolding n_def using n5 by simp
  show Lpos: "0 < L" unfolding L_def using wd(2) sc(2) by simp
  have "L * (1 - so / 150) \<le> L * (1 + so / 150)"
    using Lpos so(2) by (simp add: mult_le_cancel_left_pos)
  moreover have "0 < real n - 1" using n5' by simp
  ultimately show incpos: "0 \<le> inc" unfolding inc_def by simp
  let ?base = "1 - min (al / 100) 0.95 :: real"
  have base: "0 < ?base" "?base < 1" using al(2) by (simp_all add: min_def)
  have a_eq: "a = 1 - ?base powr (1 / real n)" unfolding a_def n_def ..
  have npos: "0 < real n" using n5' by simp
  have p1: "?base powr (1 / real n) \<le> 1"
    using base npos by (intro powr_le1) simp_all
  have p0: "0 < ?base powr (1 / real n)" using base by simp
  show a0: "0 \<le> a" using p1 by (simp add: a_eq)
  show a1: "a < 1" using p0 by (simp add: a_eq)
  have "(1 - a) ^ n = (?base powr (1 / real n)) ^ n" by (simp add: a_eq)
  also have "\<dots> = ?base" using base(1) n5' by (intro root_power_back) simp_all
  finally show "(1 - a) ^ n = 1 - min (al / 100) 0.95" .
  have steps: "jround (jadd (Fin 5) (jdiv (Fin so) (Fin 5))) = Fin (real n)"
    by (simp add: rn [symmetric])
  have lc: "loop_count (Fin (real n)) = Some n" by simp
  have alpha: "jsub (Fin 1)
      (jpow (jsub (Fin 1) (jmin (jdiv (Fin al) (Fin 100)) (Fin 0.95))) (jdiv (Fin 1) (Fin (real n))))
      = Fin a"
    using base npos by (simp add: jsub_def a_eq min_def)
  have alpha': "jsub (Fin 1)
      (jpow (jsub (Fin 1) (jmin (jdiv (Fin al) (Fin 100)) (Fin (19 / 20)))) (jdiv (Fin 1) (Fin (real n))))
      = Fin a"
    using alpha by simp
  have minw: "jmul (Fin L) (jsub (Fin 1) (jdiv (Fin so) (Fin 150))) = Fin minW"
    by (simp add: jsub_def minW_def)
  have incw: "jdiv (jsub (jmul (Fin L) (jadd (Fin 1) (jdiv (Fin so) (Fin 150)))) (Fin minW))
      (jsub (Fin (real n)) (Fin 1)) = Fin inc"
    using n5' by (simp add: jsub_def minW_def inc_def)
  have width: "jmul (jdiv (Fin wd) (Fin sc)) (Fin 20) = Fin L"
    using sc(2) by (simp add: L_def)
  have seta: "set_globalAlpha (Fin a) c = c\<lparr>globalAlpha := a\<rparr>" for c
    using a0 a1 by simp
  have setw: "set_lineWidth (Fin L) c = c\<lparr>lineWidth := L\<rparr>" for c
    using Lpos by simp
  show "handleDraw B event rect s = Some (Ok
      ((s\<lparr>tempDrawPoints := path\<rparr>)
        \<lparr>drawingCanvas := soft_passes B path (Fin minW) (Fin inc) [0..<n]
           ((putImageData bg (drawingCanvas s))
              \<lparr>ctx := (ctx (drawingCanvas s))
                 \<lparr>lineCap := ''round'', lineJoin := ''round'', lineWidth := L,
                  strokeStyle := Color (scribbleColor s),
                  globalCompositeOperation := SourceOver, globalAlpha := a\<rparr>\<rparr>)\<rparr>))"
    unfolding handleDraw_def Let_def
    using bg nm al(2) so(2)
    apply (simp add: al(1) so(1) wd(1) sc(1)
        del: jround.simps jpow.simps jadd.simps jdiv.simps jmul.simps jmin.simps
          loop_count.simps set_lineWidth.simps set_globalAlpha.simps)
    apply (simp only: steps lc option.case)
    apply (simp add: al(1) so(1) wd(1) sc(1) width setw
        del: jround.simps jpow.simps jadd.simps jdiv.simps jmul.simps jmin.simps
          loop_count.simps set_lineWidth.simps set_globalAlpha.simps)
    apply (simp only: steps alpha' minw incw seta)
    apply (simp add: path_def putImageData_def sc(1))
    done
qed

text \<open>
  Claim C6, as the code has it. A brush stroke outside mask mode with alpha above
  zero, softness above zero and below \<open>150\<close>, and a positive width and scale, is drawn
  in \<open>round (5 + softness / 5)\<close> passes over the bitmap saved at pointer-down. Pass \<open>i\<close>
  strokes the whole path with line width \<open>minW + inc * i\<close>, which runs from
  \<open>L * (1 - softness / 150)\<close> at the first pass to \<open>L * (1 + softness / 150)\<close> at the
  last in equal steps, \<open>L = scribbleWidth / imgScale * 20\<close>; every pass has the opacity
  \<open>a = 1 - (1 - min (alpha / 100) 0.95) powr (1 / steps)\<close>, and that many source-over
  passes of opacity \<open>a\<close> on a transparent pixel add up to \<open>min (alpha / 100) 0.95\<close>.
\<close>

theorem soft_brush_passes:
  fixes s :: ForgeCanvas and event :: dom_event and rect :: DOMRect and B :: browser
  assumes bg: "tempDrawBackground s = Some bg" and nm: "\<not> mask_mode s"
    and al: "scribbleAlpha s = Fin al" "0 < al"
    and so: "scribbleSoftness s = Fin so" "0 < so" "so < 150"
    and wd: "scribbleWidth s = Fin wd" "0 < wd"
    and sc: "imgScale s = Fin sc" "0 < sc"
  shows "(let n = nat (round (5 + so / 5));
              L = wd / sc * 20;
              a = 1 - (1 - min (al / 100) 0.95) powr (1 / real n);
              minW = L * (1 - so / 150);
              maxW = L * (1 + so / 150);
              inc = (maxW - minW) / (real n - 1);
              path = tempDrawPoints s
                @ [(jdiv (jsub (clientX event) (rect_left rect)) (imgScale s),
                    jdiv (jsub (clientY event) (rect_top rect)) (imgScale s))]
          in (\<exists>s'. handleDraw B event rect s = Some (Ok s')
                \<and> bm s' = foldl (\<lambda>b i. stroke B
                      ((ctx (drawingCanvas s))
                         \<lparr>lineCap := ''round'', lineJoin := ''round'',
                          strokeStyle := Color (scribbleColor s),
                          globalCompositeOperation := SourceOver, globalAlpha := a,
                          lineWidth := minW + inc * real i\<rparr>) path b)
                    (put_bitmap bg (bm s)) [0..<n])
             \<and> 5 \<le> n \<and> 0 < minW
             \<and> minW + inc * real 0 = minW
             \<and> minW + inc * real (n - 1) = maxW
             \<and> 0 \<le> a \<and> a < 1
             \<and> (source_over_alpha a ^^ n) 0 = min (al / 100) 0.95)"
proof -
  note call = soft_brush_call [OF bg nm al so(1,2) wd sc]
  let ?n = "nat \<lfloor>5 + so / 5 + 1 / 2\<rfloor>"
  let ?L = "wd / sc * 20"
  let ?a = "1 - (1 - min (al / 100) 0.95) powr (1 / real ?n)"
  let ?minW = "?L * (1 - so / 150)"
  let ?maxW = "?L * (1 + so / 150)"
  let ?inc = "(?maxW - ?minW) / (real ?n - 1)"
  have rd: "nat (round (5 + so / 5)) = ?n" by (simp add: round_def)
  have "0 < 1 - so / 150" using so(3) by simp
  with call(3) have minpos: "0 < ?minW" by (rule mult_pos_pos)
  have pass_ok: "\<forall>i\<in>set [0..<?n]. 0 < ?minW + ?inc * real i"
    using minpos call(4) by (rule pass_widths_positive)
  have n1: "real (?n - 1) = real ?n - 1" "real ?n - 1 \<noteq> 0"
    using call(2) by simp_all
  have lastw: "?minW + ?inc * real (?n - 1) = ?maxW"
    unfolding n1(1) using n1(2) by simp
  have cover: "(source_over_alpha ?a ^^ ?n) 0 = min (al / 100) 0.95"
    unfolding source_over_alpha_funpow call(7) by simp
  define c where "c = (putImageData bg (drawingCanvas s))
      \<lparr>ctx := (ctx (drawingCanvas s))
         \<lparr>lineCap := ''round'', lineJoin := ''round'', lineWidth := ?L,
          strokeStyle := Color (scribbleColor s),
          globalCompositeOperation := SourceOver, globalAlpha := ?a\<rparr>\<rparr>"
  define path where "path = tempDrawPoints s
      @ [(jdiv (jsub (clientX event) (rect_left rect)) (imgScale s),
          jdiv (jsub (clientY event) (rect_top rect)) (imgScale s))]"
  define s' where "s' = (s\<lparr>tempDrawPoints := path\<rparr>)
      \<lparr>drawingCanvas := soft_passes B path (Fin ?minW) (Fin ?inc) [0..<?n] c\<rparr>"
  have h: "handleDraw B event rect s = Some (Ok s')"
    unfolding s'_def c_def path_def by (rule call(1))
  have "bm s' = bitmap (soft_passes B path (Fin ?minW) (Fin ?inc) [0..<?n] c)"
    by (simp add: s'_def)
  also have "\<dots> = foldl (\<lambda>b i. stroke B ((ctx c)\<lparr>lineWidth := ?minW + ?inc * real i\<rparr>) path b)
                      (bitmap c) [0..<?n]"
    by (rule soft_passes_bitmap [OF pass_ok])
  also have "\<dots> = foldl (\<lambda>b i. stroke B
                      ((ctx (drawingCanvas s))
                         \<lparr>lineCap := ''round'', lineJoin := ''round'',
                          strokeStyle := Color (scribbleColor s),
                          globalCompositeOperation := SourceOver, globalAlpha := ?a,
                          lineWidth := ?minW + ?inc * real i\<rparr>) path b)
                    (put_bitmap bg (bm s)) [0..<?n]"
    by (simp add: c_def putImageData_def)
  finally have run: "\<exists>s'. handleDraw B event rect s = Some (Ok s')
                \<and> bm s' = foldl (\<lambda>b i. stroke B
                      ((ctx (drawingCanvas s))
                         \<lparr>lineCap := ''round'', lineJoin := ''round'',
                          strokeStyle := Color (scribbleColor s),
                          globalCompositeOperation := SourceOver, globalAlpha := ?a,
                          lineWidth := ?minW + ?inc * real i\<rparr>) path b)
                    (put_bitmap bg (bm s)) [0..<?n]"
    using h by blast
  have zero: "?minW + ?inc * real 0 = ?minW" by simp
  show ?thesis
    unfolding Let_def rd
    using run [unfolded path_def] call(2) minpos zero lastw call(5,6) cover
    by (intro conjI)
qed

lemma test_stroke_nonzero:
  assumes "p \<noteq> 0"
  shows "stroke test_browser c path [[p]] = [[p]]"
  using assms by (simp add: test_browser_def test_stroke_def)

lemma test_stroke_keeps:
  assumes "p \<noteq> 0"
  shows "foldl (\<lambda>b i. stroke test_browser (f i) path b) [[p]] js = [[p]]"
  using assms by (induction js) (simp_all add: test_stroke_nonzero)

lemma test_passes_keep:
  assumes "bitmap c = [[p]]" "p \<noteq> 0"
  shows "bitmap (soft_passes test_browser path m inc js c) = [[p]]"
  using assms
proof (induction js arbitrary: c)
  case Nil
  then show ?case by simp
next
  case (Cons j js)
  show ?case
    unfolding soft_passes.simps
    by (rule Cons.IH) (simp_all add: stroke_path_def test_stroke_nonzero Cons.prems)
qed

theorem soft_brush_passes_witness:
  "tempDrawBackground (brush_gesture_state 50) = Some [[0]]
   \<and> \<not> mask_mode (brush_gesture_state 50)
   \<and> scribbleAlpha (brush_gesture_state 50) = Fin 50
   \<and> scribbleSoftness (brush_gesture_state 50) = Fin 50
   \<and> scribbleWidth (brush_gesture_state 50) = Fin 4
   \<and> imgScale (brush_gesture_state 50) = Fin 1
   \<and> (\<exists>s'. handleDraw test_browser pointer_event canvas_rect (brush_gesture_state 50) = Some (Ok s')
          \<and> bm s' = [[54]])
   \<and> nat (round (5 + 50 / 5 :: real)) = 15
   \<and> (source_over_alpha (1 - (1 - min (50 / 100) 0.95) powr (1 / real (nat (round (5 + 50 / 5 :: real)))))
         ^^ nat (round (5 + 50 / 5 :: real))) 0 = 1 / 2"
proof -
  let ?s = "brush_gesture_state 50"
  have h: "tempDrawBackground ?s = Some [[0]]" "\<not> mask_mode ?s"
    "scribbleAlpha ?s = Fin 50" "(0::real) < 50"
    "scribbleSoftness ?s = Fin 50" "(0::real) < 50" "(50::real) < 150"
    "scribbleWidth ?s = Fin 4" "(0::real) < 4"
    "imgScale ?s = Fin 1" "(0::real) < 1"
    by (simp_all add: brush_gesture_eval)
  have n: "nat (round (5 + 50 / 5 :: real)) = 15" by (simp add: round_def)
  have up: "[0..<15] = 0 # [1..<15]" by (simp add: upt_conv_Cons)
  have bg: "put_bitmap [[0]] (bm ?s) = [[0]]"
    by (simp add: brush_gesture_eval put_bitmap_def put_row_def)
  have path: "tempDrawPoints ?s
      @ [(jdiv (jsub (clientX pointer_event) (rect_left canvas_rect)) (imgScale ?s),
          jdiv (jsub (clientY pointer_event) (rect_top canvas_rect)) (imgScale ?s))]
      = [(Fin 0, Fin 0), (Fin 10, Fin 10)]"
    by (simp add: brush_gesture_eval jsub_def)
  note t = soft_brush_passes [where B = test_browser and event = pointer_event
      and rect = canvas_rect, OF h, unfolded Let_def n up bg foldl_Cons path]
  have first: "stroke test_browser (c\<lparr>lineWidth := 4 / 1 * 20 * (1 - 50 / 150) + x * real 0\<rparr>)
      [(Fin 0, Fin 0), (Fin 10, Fin 10)] [[0]] = [[54]]" for c :: context2d and x :: real
    by (simp add: test_browser_def test_stroke_def has_segment_def vertex_in_def)
  from t show ?thesis
    unfolding first test_stroke_keeps [of 54, simplified]
    using h n by simp
qed

text \<open>
  The claim as the specification states it, for every softness above zero, fails at
  softness \<open>150\<close>: the first of the 35 passes should have line width
  \<open>80 * (1 - 150 / 150) = 0\<close>; the canvas ignores the assignment of \<open>0\<close> and the pass
  is drawn with width \<open>80\<close>. On the test browser, whose strokes record in the pixels
  under the vertices of a path the width of the first pass that reaches them, the
  claimed passes give the pixel \<open>1\<close> and the code gives \<open>81\<close>.
\<close>

theorem soft_brush_counterexample:
  "\<not> (\<exists>s'. handleDraw test_browser pointer_event canvas_rect (brush_gesture_state 150)
              = Some (Ok s')
          \<and> bm s' = foldl (\<lambda>b i. stroke test_browser
                ((ctx (drawingCanvas (brush_gesture_state 150)))
                   \<lparr>lineCap := ''round'', lineJoin := ''round'',
                    strokeStyle := Color (scribbleColor (brush_gesture_state 150)),
                    globalCompositeOperation := SourceOver,
                    globalAlpha := 1 - (1 - min (50 / 100) 0.95) powr (1 / 35),
                    lineWidth := 80 * (1 - 150 / 150)
                      + (80 * (1 + 150 / 150) - 80 * (1 - 150 / 150)) / (35 - 1) * real i\<rparr>)
                (tempDrawPoints (brush_gesture_state 150) @ [(Fin 10, Fin 10)]) b)
              (put_bitmap [[0]] (bm (brush_gesture_state 150))) [0..<35])"
proof -
  let ?s = "brush_gesture_state 150"
  have h: "tempDrawBackground ?s = Some [[0]]" "\<not> mask_mode ?s"
    "scribbleAlpha ?s = Fin 50" "(0::real) < 50"
    "scribbleSoftness ?s = Fin 150" "(0::real) < 150"
    "scribbleWidth ?s = Fin 4" "(0::real) < 4"
    "imgScale ?s = Fin 1" "(0::real) < 1"
    by (simp_all add: brush_gesture_eval)
  have n: "nat \<lfloor>5 + 150 / 5 + 1 / 2 :: real\<rfloor> = 35" by simp
  have up: "[0..<35] = 0 # [1..<35]" by (simp add: upt_conv_Cons)
  note call = soft_brush_call(1) [where B = test_browser and event = pointer_event
      and rect = canvas_rect, OF h, unfolded n up]
  have code: "bm (state_of (the (handleDraw test_browser pointer_event canvas_rect ?s))) = [[81]]"
    unfolding call
    apply (simp del: soft_passes.simps)
    apply (subst soft_passes.simps)
    apply (rule test_passes_keep)
     apply (simp_all add: stroke_path_def test_browser_def test_stroke_def has_segment_def
        vertex_in_def putImageData_def put_bitmap_def put_row_def brush_gesture_eval jsub_def)
    done
  have bg: "put_bitmap [[0]] (bm ?s) = [[0]]"
    by (simp add: brush_gesture_eval put_bitmap_def put_row_def)
  have tp: "tempDrawPoints ?s = [(Fin 0, Fin 0)]"
    by (simp add: brush_gesture_eval)
  have first: "stroke test_browser (c\<lparr>lineWidth := 80 * (1 - 150 / 150) + x * real 0\<rparr>)
      [(Fin 0, Fin 0), (Fin 10, Fin 10)] [[0]] = [[1]]" for c :: context2d and x :: real
    by (simp add: test_browser_def test_stroke_def has_segment_def vertex_in_def)
  have claimed: "foldl (\<lambda>b i. stroke test_browser
                ((ctx (drawingCanvas ?s))
                   \<lparr>lineCap := ''round'', lineJoin := ''round'',
                    strokeStyle := Color (scribbleColor ?s),
                    globalCompositeOperation := SourceOver,
                    globalAlpha := 1 - (1 - min (50 / 100) 0.95) powr (1 / 35),
                    lineWidth := 80 * (1 - 150 / 150)
                      + (80 * (1 + 150 / 150) - 80 * (1 - 150 / 150)) / (35 - 1) * real i\<rparr>)
                (tempDrawPoints ?s @ [(Fin 10, Fin 10)]) b)
              (put_bitmap [[0]] (bm ?s)) [0..<35] = [[1]]"
    unfolding up bg foldl_Cons tp append_Cons append_Nil first
    by (rule test_stroke_keeps) simp
  show ?thesis
  proof
    assume "\<exists>s'. handleDraw test_browser pointer_event canvas_rect ?s = Some (Ok s')
          \<and> bm s' = foldl (\<lambda>b i. stroke test_browser
                ((ctx (drawingCanvas ?s))
                   \<lparr>lineCap := ''round'', lineJoin := ''round'',
                    strokeStyle := Color (scribbleColor ?s),
                    globalCompositeOperation := SourceOver,
                    globalAlpha := 1 - (1 - min (50 / 100) 0.95) powr (1 / 35),
                    lineWidth := 80 * (1 - 150 / 150)
                      + (80 * (1 + 150 / 150) - 80 * (1 - 150 / 150)) / (35 - 1) * real i\<rparr>)
                (tempDrawPoints ?s @ [(Fin 10, Fin 10)]) b)
              (put_bitmap [[0]] (bm ?s)) [0..<35]"
    then obtain s' where
      "handleDraw test_browser pointer_event canvas_rect ?s = Some (Ok s')" "bm s' = [[1]]"
      unfolding claimed by blast
    with code show False by simp
  qed
qed

text \<open>
  Claim C8. The channel does not echo its own writes. After \<open>setValue v\<close> on a channel
  whose guard is free, the observer finds the textarea equal to the value last
  written: it reports nothing and changes nothing. A \<open>setValue\<close> made while the guard is
  held changes nothing at all (there is no queue to put it in), so a call writes to
  the textarea and dispatches an \<open>input\<close> event at most once.
\<close>

theorem setValue_no_echo:
  "(\<not> syncLock b \<longrightarrow>
      observer_callback (setValue v b) = Ok (setValue v b)
      \<and> target_value (setValue v b) = v
      \<and> inputEvents (setValue v b) = inputEvents b @ [v])
   \<and> (syncLock b \<longrightarrow> setValue v b = b)
   \<and> length (inputEvents (setValue v b)) \<le> length (inputEvents b) + 1"
  by (simp add: setValue_def observer_callback_def)

theorem setValue_no_echo_witness:
  "\<not> syncLock (new_GradioTextAreaBind [])
   \<and> observer_callback (setValue ''data:,'' (new_GradioTextAreaBind []))
       = Ok (setValue ''data:,'' (new_GradioTextAreaBind []))
   \<and> inputEvents (setValue ''data:,'' (new_GradioTextAreaBind [])) = [''data:,'']
   \<and> syncLock ((new_GradioTextAreaBind [])\<lparr>syncLock := True\<rparr>)
   \<and> setValue ''data:,'' ((new_GradioTextAreaBind [])\<lparr>syncLock := True\<rparr>)
       = (new_GradioTextAreaBind [])\<lparr>syncLock := True\<rparr>"
  using setValue_no_echo [of "new_GradioTextAreaBind []" "''data:,''"]
    setValue_no_echo [of "(new_GradioTextAreaBind [])\<lparr>syncLock := True\<rparr>" "''data:,''"]
  by (simp add: new_GradioTextAreaBind_def)

text \<open>
  Claim C9, as the code has it. \<open>adjustInitialPositionAndScale\<close> has no guard: it
  divides whatever the sizes are and overwrites the view state, for every image size
  and every container size. With \<open>iw\<close>, \<open>ih\<close> the size of the image and \<open>cw\<close>, \<open>ch\<close> that
  of the container, the view state (offset X, offset Y, scale) after the fit is:

    \<^item> image of positive width and height (a container of width or height zero
      included): nothing is divided by zero, the scale is
      \<open>min ((cw - 20) / iw) ((ch - 20) / ih)\<close>, negative when \<open>cw < 20\<close> or \<open>ch < 20\<close>, and
      the offsets centre the scaled image;
    \<^item> image of width and height zero (the state before the first load): both
      quotients are divisions by zero, the offsets are NaN (from \<open>0 * \<infinity>\<close>), and the scale
      is NaN when \<open>cw = 20\<close> or \<open>ch = 20\<close> (from \<open>0 / 0\<close>), otherwise \<open>-\<infinity>\<close> when \<open>cw < 20\<close> or
      \<open>ch < 20\<close>, otherwise \<open>+\<infinity>\<close>;
    \<^item> image of width zero and positive height: for \<open>cw > 20\<close> the horizontal quotient
      is \<open>+\<infinity>\<close>, the scale is \<open>(ch - 20) / ih\<close> and the offsets are \<open>cw / 2\<close> and \<open>10\<close>; for
      \<open>cw = 20\<close> all three are NaN; for \<open>cw < 20\<close> the scale is \<open>-\<infinity>\<close> and the offsets are
      NaN and \<open>+\<infinity>\<close>;
    \<^item> image of positive width and height zero: the same with the axes exchanged.
\<close>

theorem fit_degenerate_not_skipped:
  "viewState (adjustInitialPositionAndScale s) =
     (let iw = originalWidth s; ih = originalHeight s;
          cw = clientWidth s; ch = clientHeight s
      in if 0 < iw \<and> 0 < ih then
           (Fin ((real cw - real iw * min ((real cw - 20) / real iw) ((real ch - 20) / real ih)) / 2),
            Fin ((real ch - real ih * min ((real cw - 20) / real iw) ((real ch - 20) / real ih)) / 2),
            Fin (min ((real cw - 20) / real iw) ((real ch - 20) / real ih)))
         else if iw = 0 \<and> ih = 0 then
           (NaN, NaN, if cw = 20 \<or> ch = 20 then NaN
                      else if cw < 20 \<or> ch < 20 then NInf else PInf)
         else if iw = 0 then
           (if 20 < cw then (Fin (real cw / 2), Fin 10, Fin ((real ch - 20) / real ih))
            else if cw = 20 then (NaN, NaN, NaN)
            else (NaN, PInf, NInf))
         else
           (if 20 < ch then (Fin 10, Fin (real ch / 2), Fin ((real cw - 20) / real iw))
            else if ch = 20 then (NaN, NaN, NaN)
            else (PInf, NaN, NInf)))"
proof -
  consider (pos) "0 < originalWidth s" "0 < originalHeight s"
    | (zero) "originalWidth s = 0" "originalHeight s = 0"
    | (w0) "originalWidth s = 0" "0 < originalHeight s"
    | (h0) "0 < originalWidth s" "originalHeight s = 0"
    by auto
  then show ?thesis
  proof cases
    case pos
    then show ?thesis
      using adjust_positive [OF pos] by (simp add: viewState_def Let_def)
  next
    case zero
    consider "clientWidth s < 20" | "clientWidth s = 20" | "20 < clientWidth s" by linarith
    moreover
    consider "clientHeight s < 20" | "clientHeight s = 20" | "20 < clientHeight s" by linarith
    ultimately show ?thesis
      using zero
      by cases (cases; simp add: viewState_def adjustInitialPositionAndScale_def jsub_def
          Let_def)+
  next
    case w0
    consider "clientWidth s < 20" | "clientWidth s = 20" | "20 < clientWidth s" by linarith
    then show ?thesis
      using w0
      by cases (simp_all add: viewState_def adjustInitialPositionAndScale_def jsub_def
          Let_def)
  next
    case h0
    consider "clientHeight s < 20" | "clientHeight s = 20" | "20 < clientHeight s" by linarith
    then show ?thesis
      using h0
      by cases (simp_all add: viewState_def adjustInitialPositionAndScale_def jsub_def
          Let_def)
  qed
qed

text \<open>
  Instances: the state the constructor leaves (no image, container of 400 by 400); no
  image in a container of size zero; an image of 200 by 0 in a container of 400 by
  400; an image of 0 by 100 in a container of width 10; an image of 200 by 100 in a
  container of width zero.
\<close>

theorem fit_degenerate_not_skipped_witness:
  "viewState (adjustInitialPositionAndScale (new_ForgeCanvas test_browser None 400 400 [] []))
       = (NaN, NaN, PInf)
   \<and> viewState (adjustInitialPositionAndScale (new_ForgeCanvas test_browser None 0 0 [] []))
       = (NaN, NaN, NInf)
   \<and> viewState (adjustInitialPositionAndScale ((new_ForgeCanvas test_browser None 400 400 [] [])
            \<lparr>originalWidth := 200, originalHeight := 0\<rparr>))
       = (Fin 10, Fin 200, Fin (19 / 10))
   \<and> viewState (adjustInitialPositionAndScale ((new_ForgeCanvas test_browser None 10 400 [] [])
            \<lparr>originalWidth := 0, originalHeight := 100\<rparr>))
       = (NaN, PInf, NInf)
   \<and> viewState (adjustInitialPositionAndScale ((new_ForgeCanvas test_browser None 0 400 [] [])
            \<lparr>originalWidth := 200, originalHeight := 100\<rparr>))
       = (Fin 10, Fin 205, Fin (- (1 / 10)))"
proof -
  let ?s1 = "new_ForgeCanvas test_browser None 400 400 [] []"
  let ?s2 = "new_ForgeCanvas test_browser None 0 0 [] []"
  let ?s3 = "(new_ForgeCanvas test_browser None 400 400 [] [])
               \<lparr>originalWidth := 200, originalHeight := 0\<rparr>"
  let ?s4 = "(new_ForgeCanvas test_browser None 10 400 [] [])
               \<lparr>originalWidth := 0, originalHeight := 100\<rparr>"
  let ?s5 = "(new_ForgeCanvas test_browser None 0 400 [] [])
               \<lparr>originalWidth := 200, originalHeight := 100\<rparr>"
  have v1: "viewState (adjustInitialPositionAndScale ?s1) = (NaN, NaN, PInf)"
    using fit_degenerate_not_skipped [of ?s1] by (simp add: new_ForgeCanvas_def)
  have v2: "viewState (adjustInitialPositionAndScale ?s2) = (NaN, NaN, NInf)"
    using fit_degenerate_not_skipped [of ?s2] by (simp add: new_ForgeCanvas_def)
  have v3: "viewState (adjustInitialPositionAndScale ?s3) = (Fin 10, Fin 200, Fin (19 / 10))"
    using fit_degenerate_not_skipped [of ?s3] by (simp add: new_ForgeCanvas_def)
  have v4: "viewState (adjustInitialPositionAndScale ?s4) = (NaN, PInf, NInf)"
    using fit_degenerate_not_skipped [of ?s4] by (simp add: new_ForgeCanvas_def)
  have v5: "viewState (adjustInitialPositionAndScale ?s5)
      = (Fin 10, Fin 205, Fin (- (1 / 10)))"
    using fit_degenerate_not_skipped [of ?s5] by (simp add: new_ForgeCanvas_def)
  show ?thesis
    apply (intro conjI)
        apply (rule v1)
       apply (rule v2)
      apply (rule v3)
     apply (rule v4)
    apply (rule v5)
    done
qed

text \<open>
  The claim as the specification states it fails in the state the constructor leaves:
  the fit is not skipped and the view state \<open>(0, 0, 1)\<close> is not retained.
\<close>

theorem fit_degenerate_counterexample:
  "originalWidth (new_ForgeCanvas test_browser None 400 400 [] []) = 0
   \<and> viewState (new_ForgeCanvas test_browser None 400 400 [] []) = (Fin 0, Fin 0, Fin 1)
   \<and> viewState (adjustInitialPositionAndScale (new_ForgeCanvas test_browser None 400 400 [] []))
       \<noteq> viewState (new_ForgeCanvas test_browser None 400 400 [] [])"
  by (simp add: viewState_def adjustInitialPositionAndScale_def new_ForgeCanvas_def
      jsub_def Let_def)

text \<open>
  Claim C10. \<open>uploadBase64\<close> with a non-empty payload, when the page has no
  \<open>gradio_config\<close> or its version does not start with \<open>4\<close>, returns at once: no decode
  is started and the state (image, size, overlay, history, both channels and every
  other field) is the one it was called in.
\<close>

theorem uploadBase64_guard:
  assumes "base64Data \<noteq> []"
    and "gradioConfig s = None \<or> (\<exists>g. gradioConfig s = Some g \<and> \<not> startsWith (version g) ''4'')"
  shows "uploadBase64 B base64Data s = (Ok s, None)"
  using assms by (auto simp: uploadBase64_def)

theorem uploadBase64_guard_witness:
  "''data:image/png;base64,AAAA'' \<noteq> []
   \<and> gradioConfig (new_ForgeCanvas test_browser None 400 400 [] []) = None
   \<and> uploadBase64 test_browser ''data:image/png;base64,AAAA''
        (new_ForgeCanvas test_browser None 400 400 [] [])
       = (Ok (new_ForgeCanvas test_browser None 400 400 [] []), None)
   \<and> gradioConfig (new_ForgeCanvas test_browser (Some \<lparr>version = ''3.41.2''\<rparr>) 400 400 [] [])
       = Some \<lparr>version = ''3.41.2''\<rparr>
   \<and> \<not> startsWith ''3.41.2'' ''4''
   \<and> uploadBase64 test_browser ''data:image/png;base64,AAAA''
        (new_ForgeCanvas test_browser (Some \<lparr>version = ''3.41.2''\<rparr>) 400 400 [] [])
       = (Ok (new_ForgeCanvas test_browser (Some \<lparr>version = ''3.41.2''\<rparr>) 400 400 [] []), None)"
proof -
  let ?d = "''data:image/png;base64,AAAA''"
  let ?s1 = "new_ForgeCanvas test_browser None 400 400 [] []"
  let ?s2 = "new_ForgeCanvas test_browser (Some \<lparr>version = ''3.41.2''\<rparr>) 400 400 [] []"
  have d: "?d \<noteq> []" by simp
  have g1: "gradioConfig ?s1 = None" by (simp add: new_ForgeCanvas_def)
  have g2: "gradioConfig ?s2 = Some \<lparr>version = ''3.41.2''\<rparr>" by (simp add: new_ForgeCanvas_def)
  have v: "\<not> startsWith ''3.41.2'' ''4''" by (simp add: startsWith_def)
  have h1: "gradioConfig ?s1 = None
      \<or> (\<exists>g. gradioConfig ?s1 = Some g \<and> \<not> startsWith (version g) ''4'')"
    using g1 by simp
  have h2: "gradioConfig ?s2 = None
      \<or> (\<exists>g. gradioConfig ?s2 = Some g \<and> \<not> startsWith (version g) ''4'')"
    using g2 v by simp
  show ?thesis
    using d g1 g2 v uploadBase64_guard [OF d h1, of test_browser]
      uploadBase64_guard [OF d h2, of test_browser]
    by blast
qed

end
